theory Spec2Isabelle
  imports Complex_Main "HOL-Library.Multiset"
begin

section \<open>Python values: errors, arrays, keyword arguments\<close>

text \<open>
  The program is \<^verbatim>\<open>blocks/groundhog/examples/sine.py\<close>. Every exception the
  source can raise is a value: a function that can raise returns \<open>error + 'a\<close>, with
  \<open>Inl\<close> the exception.
\<close>

datatype error = KeyError string | IndexError | AssertionError | TypeError | ValueError

definition bind_err :: "error + 'a \<Rightarrow> ('a \<Rightarrow> error + 'b) \<Rightarrow> error + 'b" where
  "bind_err m f = (case m of Inl e \<Rightarrow> Inl e | Inr x \<Rightarrow> f x)"

text \<open>
  Arrays of rank 0 to 3 over a numeric element type \<open>'a\<close>. The element type is left
  open: each definition asks of it only the operations it uses, and each theorem only
  the laws it needs, so that a theorem that needs none holds for the floating-point
  numbers of the source as well; rounding is not modelled. A matrix is the list of its
  rows; in a matrix the rows are the sequences of a batch, in a rank-3 array the first
  axis is time and the second the batch. Arrays here are values; that the source builds
  symbolic expressions of them, evaluated later, is not modelled.
\<close>

datatype 'a tensor = Scal 'a | Vec "'a list" | Mat "'a list list" | Seq "'a list list list"

fun ndim :: "'a tensor \<Rightarrow> int" where
  "ndim (Scal _) = 0"
| "ndim (Vec _) = 1"
| "ndim (Mat _) = 2"
| "ndim (Seq _) = 3"

text \<open>
  The array library's elementwise binary operators (\<^verbatim>\<open>+\<close>, \<^verbatim>\<open>-\<close>): operands
  of equal rank are combined position by position, an operand of lower rank is repeated
  along the leading axes of the other.
\<close>

fun tbinop :: "('a \<Rightarrow> 'a \<Rightarrow> 'a) \<Rightarrow> 'a tensor \<Rightarrow> 'a tensor \<Rightarrow> 'a tensor" where
  "tbinop f (Scal a) (Scal b) = Scal (f a b)"
| "tbinop f (Scal a) (Vec b) = Vec (map (f a) b)"
| "tbinop f (Scal a) (Mat b) = Mat (map (map (f a)) b)"
| "tbinop f (Scal a) (Seq b) = Seq (map (map (map (f a))) b)"
| "tbinop f (Vec a) (Scal b) = Vec (map (\<lambda>x. f x b) a)"
| "tbinop f (Vec a) (Vec b) = Vec (map2 f a b)"
| "tbinop f (Vec a) (Mat b) = Mat (map (map2 f a) b)"
| "tbinop f (Vec a) (Seq b) = Seq (map (map (map2 f a)) b)"
| "tbinop f (Mat a) (Scal b) = Mat (map (map (\<lambda>x. f x b)) a)"
| "tbinop f (Mat a) (Vec b) = Mat (map (\<lambda>r. map2 f r b) a)"
| "tbinop f (Mat a) (Mat b) = Mat (map2 (map2 f) a b)"
| "tbinop f (Mat a) (Seq b) = Seq (map (map2 (map2 f) a) b)"
| "tbinop f (Seq a) (Scal b) = Seq (map (map (map (\<lambda>x. f x b))) a)"
| "tbinop f (Seq a) (Vec b) = Seq (map (map (\<lambda>r. map2 f r b)) a)"
| "tbinop f (Seq a) (Mat b) = Seq (map (\<lambda>m. map2 (map2 f) m b) a)"
| "tbinop f (Seq a) (Seq b) = Seq (map2 (map2 (map2 f)) a b)"

definition tadd :: "'a::plus tensor \<Rightarrow> 'a tensor \<Rightarrow> 'a tensor" where
  "tadd = tbinop (+)"

definition tsub :: "'a::minus tensor \<Rightarrow> 'a tensor \<Rightarrow> 'a tensor" where
  "tsub = tbinop (-)"

fun tmap :: "('a \<Rightarrow> 'b) \<Rightarrow> 'a tensor \<Rightarrow> 'b tensor" where
  "tmap f (Scal a) = Scal (f a)"
| "tmap f (Vec a) = Vec (map f a)"
| "tmap f (Mat a) = Mat (map (map f) a)"
| "tmap f (Seq a) = Seq (map (map (map f)) a)"

text \<open>
  A keyword argument of an application is an array or a flag (\<^verbatim>\<open>iterate\<close>);
  \<^verbatim>\<open>**kwargs\<close> is a dictionary from names to them. \<open>truthy\<close> is Python's truth
  test, as \<^verbatim>\<open>if kwargs.get('iterate', True)\<close> applies it: an array variable counts
  as true.
\<close>

datatype 'a arg = Tensor "'a tensor" | Flag bool

type_synonym 'a kwargs = "string \<rightharpoonup> 'a arg"

fun truthy :: "'a arg \<Rightarrow> bool" where
  "truthy (Flag b) = b"
| "truthy (Tensor _) = True"

definition set_item :: "'b list \<Rightarrow> int \<Rightarrow> 'b \<Rightarrow> error + 'b list" where
  \<comment> \<open>\<^verbatim>\<open>xs[i] = v\<close>: an index below zero counts back from the end; outside the list it raises.\<close>
  "set_item xs i v =
     (if 0 \<le> i \<and> i < int (length xs) then Inr (xs[nat i := v])
      else if i < 0 \<and> - int (length xs) \<le> i then Inr (xs[nat (int (length xs) + i) := v])
      else Inl IndexError)"

section \<open>The child bricks: linear layers, Fork, MLP\<close>

text \<open>
  Modelled from the spec: \<^verbatim>\<open>Fork\<close> and \<^verbatim>\<open>MLP\<close> (with its \<^verbatim>\<open>Identity\<close>
  activation) are bricks of the library that the example imports; their code is not
  among the sources. The spec calls what each computes a learned affine projection:
  for a row \<open>x\<close>, weights \<open>W\<close> (one row per input component) and biases \<open>b\<close> it is
  \<open>b + \<Sum>i. x\<^sub>i * W\<^sub>i\<close>, taken row by row along the last axis of an array.
\<close>

record 'a Linear =
  lin_W :: "'a list list"
  lin_b :: "'a list"

definition affine :: "'a::{plus,times} Linear \<Rightarrow> 'a list \<Rightarrow> 'a list" where
  "affine l x = fold (\<lambda>(xi, Wi) acc. map2 (+) acc (map ((*) xi) Wi)) (zip x (lin_W l)) (lin_b l)"

fun Linear_apply :: "'a::{plus,times} Linear \<Rightarrow> 'a tensor \<Rightarrow> error + 'a tensor" where
  "Linear_apply l (Scal a) = Inl TypeError"
| "Linear_apply l (Vec a) = Inr (Vec (affine l a))"
| "Linear_apply l (Mat a) = Inr (Mat (map (affine l) a))"
| "Linear_apply l (Seq a) = Inr (Seq (map (map (affine l)) a))"

definition Identity :: "'a tensor \<Rightarrow> 'a tensor" where
  "Identity x = x"

text \<open>
  Modelled from the spec: an \<^verbatim>\<open>MLP\<close> holds one linear layer per activation and a list
  \<^verbatim>\<open>dims\<close> of one more entry than it has activations, unset until the allocation
  configuration is pushed; its learned layers exist once it is allocated.
\<close>

record 'a MLP =
  activations :: "('a tensor \<Rightarrow> 'a tensor) list"
  dims :: "int option list"
  linear_transformations :: "'a Linear list"

definition MLP_init :: "('a tensor \<Rightarrow> 'a tensor) list \<Rightarrow> 'a MLP" where
  "MLP_init acts =
     \<lparr>activations = acts, dims = replicate (length acts + 1) None, linear_transformations = []\<rparr>"

fun MLP_layers :: "(('a tensor \<Rightarrow> 'a tensor) \<times> 'a::{plus,times} Linear) list \<Rightarrow> 'a tensor
    \<Rightarrow> error + 'a tensor" where
  "MLP_layers [] x = Inr x"
| "MLP_layers ((act, l) # rest) x = bind_err (Linear_apply l x) (\<lambda>y. MLP_layers rest (act y))"

definition MLP_apply :: "'a::{plus,times} MLP \<Rightarrow> 'a tensor \<Rightarrow> error + 'a tensor" where
  "MLP_apply m x =
     (if length (linear_transformations m) \<noteq> length (activations m) then Inl ValueError
      else MLP_layers (zip (activations m) (linear_transformations m)) x)"

text \<open>
  Modelled from the spec: a \<^verbatim>\<open>Fork\<close> holds one affine projection per fork name, all
  applied to the same input; \<^verbatim>\<open>apply(..., return_dict=True)\<close> returns the dictionary of
  their outputs.
\<close>

record 'a Fork =
  fork_names :: "string list"
  input_dim :: "int option"
  fork_dims :: "string \<rightharpoonup> int"
  fork_params :: "string \<rightharpoonup> 'a Linear"

definition Fork_init :: "string list \<Rightarrow> 'a Fork" where
  "Fork_init names =
     \<lparr>fork_names = names, input_dim = None, fork_dims = Map.empty, fork_params = Map.empty\<rparr>"

fun Fork_outputs :: "'a::{plus,times} Fork \<Rightarrow> string list \<Rightarrow> 'a tensor
    \<Rightarrow> error + (string \<rightharpoonup> 'a tensor)" where
  "Fork_outputs fk [] x = Inr Map.empty"
| "Fork_outputs fk (n # ns) x =
     (case fork_params fk n of
        None \<Rightarrow> Inl ValueError
      | Some l \<Rightarrow> bind_err (Linear_apply l x) (\<lambda>y.
          bind_err (Fork_outputs fk ns x) (\<lambda>d. Inr (if n \<in> dom d then d else d(n \<mapsto> y)))))"

definition Fork_apply :: "'a::{plus,times} Fork \<Rightarrow> 'a tensor \<Rightarrow> error + (string \<rightharpoonup> 'a tensor)" where
  "Fork_apply fk x = Fork_outputs fk (fork_names fk) x"

section \<open>The wrapped transition\<close>

text \<open>
  The transition is a parameter of \<^verbatim>\<open>AddParameters\<close>: the names its
  \<^verbatim>\<open>apply\<close> declares (\<^verbatim>\<open>apply.sequences\<close>, \<^verbatim>\<open>apply.states\<close>,
  \<^verbatim>\<open>apply.contexts\<close>), its \<^verbatim>\<open>get_dim\<close> and its \<^verbatim>\<open>apply\<close>.
\<close>

record ('a, 'r) transition =
  sequences :: "string list"
  states :: "string list"
  contexts :: "string list"
  transition_get_dim :: "string \<Rightarrow> error + int"
  transition_apply :: "'a kwargs \<Rightarrow> error + 'r"

section \<open>AddParameters\<close>

text \<open>
  The brick, with the attributes that \<^verbatim>\<open>__init__\<close> sets. The initialization schemes
  \<^verbatim>\<open>weights_init\<close> and \<^verbatim>\<open>biases_init\<close>, which only
  \<^verbatim>\<open>_push_initialization_config\<close> reads, and the list of children are left out. A flag
  where an array is expected raises TypeError.
\<close>

record ('a, 'r) AddParameters =
  transition :: "('a, 'r) transition"
  num_params :: int
  params_name :: string
  input_names :: "string list"
  state_name :: string
  fork :: "'a Fork"
  init :: "'a MLP"

definition AddParameters_init ::
    "('a, 'r) transition \<Rightarrow> int \<Rightarrow> string \<Rightarrow> error + ('a, 'r) AddParameters" where
  \<comment> \<open>\<^verbatim>\<open>__init__\<close>: \<^verbatim>\<open>states[0]\<close> is read before the assertion on the number of states.\<close>
  "AddParameters_init t n pname =
     (let names = [name \<leftarrow> sequences t. name \<noteq> ''mask''] in
      case states t of
        [] \<Rightarrow> Inl IndexError
      | s # _ \<Rightarrow>
          if length (states t) \<noteq> 1 then Inl AssertionError
          else Inr \<lparr>transition = t, num_params = n, params_name = pname,
                    input_names = names, state_name = s,
                    fork = Fork_init names, init = MLP_init [Identity]\<rparr>)"

fun get_dims :: "(string \<Rightarrow> error + int) \<Rightarrow> string list \<Rightarrow> error + (string \<rightharpoonup> int)" where
  \<comment> \<open>\<^verbatim>\<open>{name: get_dim(name) for name in names}\<close>, in the order of the names.\<close>
  "get_dims g [] = Inr Map.empty"
| "get_dims g (n # ns) =
     bind_err (g n) (\<lambda>d. bind_err (get_dims g ns) (\<lambda>m. Inr (if n \<in> dom m then m else m(n \<mapsto> d))))"

definition push_allocation_config :: "('a, 'r) AddParameters \<Rightarrow> error + ('a, 'r) AddParameters" where
  "push_allocation_config ap =
     bind_err (get_dims (transition_get_dim (transition ap)) (input_names ap)) (\<lambda>fd.
     bind_err (set_item (dims (init ap)) 0 (Some (num_params ap))) (\<lambda>d0.
     bind_err (transition_get_dim (transition ap) (state_name ap)) (\<lambda>sd.
     bind_err (set_item d0 (-1) (Some sd)) (\<lambda>d1.
       Inr (ap\<lparr>fork := (fork ap)\<lparr>input_dim := Some (num_params ap), fork_dims := fd\<rparr>,
               init := (init ap)\<lparr>dims := d1\<rparr>\<rparr>)))))"

definition initial_state ::
    "('a::{plus,times}, 'r) AddParameters \<Rightarrow> nat option \<Rightarrow> 'a kwargs \<Rightarrow> error + 'a tensor" where
  "initial_state ap batch_size kwargs =
     (case kwargs ''params'' of
        None \<Rightarrow> Inl (KeyError ''params'')
      | Some (Flag _) \<Rightarrow> Inl TypeError
      | Some (Tensor p) \<Rightarrow> MLP_apply (init ap) p)"

fun pop_inputs :: "string list \<Rightarrow> 'a kwargs \<Rightarrow> 'a kwargs \<Rightarrow> error + ('a kwargs \<times> 'a kwargs)" where
  \<comment> \<open>\<^verbatim>\<open>inputs = {name: kwargs.pop(name) for name in self.input_names}\<close>\<close>
  "pop_inputs [] kwargs inputs = Inr (kwargs, inputs)"
| "pop_inputs (n # ns) kwargs inputs =
     (case kwargs n of
        None \<Rightarrow> Inl (KeyError n)
      | Some v \<Rightarrow> pop_inputs ns (kwargs(n := None)) (inputs(n \<mapsto> v)))"

fun add_forks :: "string list \<Rightarrow> (string \<rightharpoonup> 'a::plus tensor) \<Rightarrow> 'a kwargs \<Rightarrow> error + 'a kwargs" where
  \<comment> \<open>\<^verbatim>\<open>for name in self.input_names: inputs[name] = inputs[name] + forks[name]\<close>\<close>
  "add_forks [] forks inputs = Inr inputs"
| "add_forks (n # ns) forks inputs =
     (case inputs n of
        None \<Rightarrow> Inl (KeyError n)
      | Some (Flag _) \<Rightarrow> Inl TypeError
      | Some (Tensor x) \<Rightarrow>
          (case forks n of
             None \<Rightarrow> Inl (KeyError n)
           | Some f \<Rightarrow> add_forks ns forks (inputs(n \<mapsto> Tensor (tadd x f)))))"

definition delegated_kwargs :: "('a::{plus,times}, 'r) AddParameters \<Rightarrow> 'a kwargs \<Rightarrow> error + 'a kwargs" where
  \<comment> \<open>The body of \<^verbatim>\<open>apply\<close> up to its last line: the keyword arguments it hands on.\<close>
  "delegated_kwargs ap kwargs =
     bind_err (pop_inputs (input_names ap) kwargs Map.empty) (\<lambda>(kwargs1, inputs).
     (case kwargs1 ''params'' of
        None \<Rightarrow> Inl (KeyError ''params'')
      | Some (Flag _) \<Rightarrow> Inl TypeError
      | Some (Tensor params) \<Rightarrow>
          (let kwargs2 = kwargs1(''params'' := None) in
           bind_err (Fork_apply (fork ap) params) (\<lambda>forks.
           bind_err (add_forks (input_names ap) forks inputs) (\<lambda>inputs'.
           (let kwargs3 = kwargs2 ++ inputs' in
            if truthy (case kwargs3 ''iterate'' of None \<Rightarrow> Flag True | Some v \<Rightarrow> v)
            then bind_err (initial_state ap None [''params'' \<mapsto> Tensor params]) (\<lambda>s.
                   Inr (kwargs3(state_name ap \<mapsto> Tensor s)))
            else Inr kwargs3))))))"

definition AddParameters_apply :: "('a::{plus,times}, 'r) AddParameters \<Rightarrow> 'a kwargs \<Rightarrow> error + 'r" where
  "AddParameters_apply ap kwargs =
     bind_err (delegated_kwargs ap kwargs) (transition_apply (transition ap))"

definition apply_contexts :: "('a, 'r) AddParameters \<Rightarrow> string list" where
  "apply_contexts ap = params_name ap # contexts (transition ap)"

definition get_dim :: "('a, 'r) AddParameters \<Rightarrow> string \<Rightarrow> error + int" where
  "get_dim ap name =
     (if name = ''params'' then Inr (num_params ap) else transition_get_dim (transition ap) name)"

section \<open>Construction and allocation\<close>

text \<open>
  Modelled from the spec: \<^verbatim>\<open>main\<close> builds the brick (line 165) and allocates it
  (line 173). Allocation is the library's: it pushes the allocation configuration and
  creates the learned parameters of the children, whose values initialization sets and
  training changes. \<open>fw\<close> and \<open>iw\<close> are those values, for the fork and for the
  \<^verbatim>\<open>init\<close> network.
\<close>

definition set_parameters ::
    "(string \<rightharpoonup> 'a Linear) \<Rightarrow> 'a Linear list \<Rightarrow> ('a, 'r) AddParameters \<Rightarrow> ('a, 'r) AddParameters" where
  "set_parameters fw iw ap =
     ap\<lparr>fork := (fork ap)\<lparr>fork_params := fw\<rparr>, init := (init ap)\<lparr>linear_transformations := iw\<rparr>\<rparr>"

definition construct ::
    "('a, 'r) transition \<Rightarrow> int \<Rightarrow> string \<Rightarrow> (string \<rightharpoonup> 'a Linear) \<Rightarrow> 'a Linear list
     \<Rightarrow> error + ('a, 'r) AddParameters" where
  "construct t n pname fw iw =
     bind_err (AddParameters_init t n pname) (\<lambda>ap0.
     bind_err (push_allocation_config ap0) (\<lambda>ap1. Inr (set_parameters fw iw ap1)))"

definition Linear_shaped :: "int \<Rightarrow> int \<Rightarrow> 'a Linear \<Rightarrow> bool" where
  \<comment> \<open>A layer from \<open>i\<close> inputs to \<open>d\<close> outputs.\<close>
  "Linear_shaped i d l \<longleftrightarrow>
     int (length (lin_W l)) = i \<and> (\<forall>r \<in> set (lin_W l). int (length r) = d) \<and>
     int (length (lin_b l)) = d"

section \<open>A concrete cell and concrete inputs\<close>

text \<open>
  A transition with the ports of the gated recurrent cell that \<^verbatim>\<open>main\<close> wraps. Its
  \<^verbatim>\<open>apply\<close> returns the keyword arguments it is called with, so that what
  \<^verbatim>\<open>AddParameters.apply\<close> hands on can be read off.
\<close>

definition echo_transition :: "int \<Rightarrow> ('a, 'a kwargs) transition" where
  "echo_transition d =
     \<lparr>sequences = [''mask'', ''inputs'', ''update_inputs'', ''reset_inputs''],
      states = [''states''],
      contexts = [],
      transition_get_dim = (\<lambda>name.
         if name \<in> {''inputs'', ''states'', ''update_inputs'', ''reset_inputs''} then Inr d
         else if name = ''mask'' then Inr 0
         else Inl ValueError),
      transition_apply = Inr\<rparr>"

definition example_fork_params :: "string \<rightharpoonup> int Linear" where
  "example_fork_params =
     [''inputs'' \<mapsto> \<lparr>lin_W = [[1, 2]], lin_b = [10, 20]\<rparr>,
      ''update_inputs'' \<mapsto> \<lparr>lin_W = [[1, 0]], lin_b = [0, 0]\<rparr>,
      ''reset_inputs'' \<mapsto> \<lparr>lin_W = [[0, 1]], lin_b = [1, 1]\<rparr>]"

definition example_init_params :: "int Linear list" where
  "example_init_params = [\<lparr>lin_W = [[3, 4]], lin_b = [5, 6]\<rparr>]"


definition with_states :: "string list \<Rightarrow> (int, int kwargs) transition" where
  "with_states ss = (echo_transition 2)\<lparr>states := ss\<rparr>"


section \<open>The emitter's cost\<close>

text \<open>
  \<^verbatim>\<open>t.sum(axis=k)\<close> and \<^verbatim>\<open>t.sum()\<close> of the array library. An axis is counted from
  the front, or from the back when negative; an axis the array does not have raises.
\<close>

definition colsums :: "'a::comm_monoid_add list list \<Rightarrow> 'a list" where
  "colsums m = map sum_list (transpose m)"

fun tsum_axis :: "int \<Rightarrow> 'a::comm_monoid_add tensor \<Rightarrow> error + 'a tensor" where
  "tsum_axis k (Scal a) = Inl ValueError"
| "tsum_axis k (Vec v) = (if k = 0 \<or> k = -1 then Inr (Scal (sum_list v)) else Inl ValueError)"
| "tsum_axis k (Mat m) =
     (if k = 1 \<or> k = -1 then Inr (Vec (map sum_list m))
      else if k = 0 \<or> k = -2 then Inr (Vec (colsums m))
      else Inl ValueError)"
| "tsum_axis k (Seq s) =
     (if k = 2 \<or> k = -1 then Inr (Mat (map (map sum_list) s))
      else if k = 1 \<or> k = -2 then Inr (Mat (map colsums s))
      else if k = 0 \<or> k = -3 then Inr (Mat (map colsums (transpose s)))
      else Inl ValueError)"

fun tsum :: "'a::comm_monoid_add tensor \<Rightarrow> 'a" where
  "tsum (Scal a) = a"
| "tsum (Vec v) = sum_list v"
| "tsum (Mat m) = sum_list (map sum_list m)"
| "tsum (Seq s) = sum_list (map (\<lambda>m. sum_list (map sum_list m)) s)"

definition Emitter_cost :: "'a::{comm_monoid_add,minus,power} tensor \<Rightarrow> 'a tensor \<Rightarrow> error + 'a tensor" where
  \<comment> \<open>\<^verbatim>\<open>((readouts - outputs) ** 2).sum(axis=readouts.ndim - 1)\<close>\<close>
  "Emitter_cost readouts outputs =
     tsum_axis (ndim readouts - 1) (tmap (\<lambda>d. d ^ 2) (tsub readouts outputs))"


definition row_error :: "'a::{comm_monoid_add,minus,power} list \<Rightarrow> 'a list \<Rightarrow> 'a" where
  \<comment> \<open>The squared errors of one readout vector against one target vector, summed.\<close>
  "row_error r y = (\<Sum>(a, b) \<leftarrow> zip r y. (a - b) ^ 2)"

section \<open>SeriesIterator\<close>

text \<open>
  The user's function is a Python function of positional parameters: the names
  \<^verbatim>\<open>inspect.getargspec(func).args\<close> lists, and a body. Calling it with another number of
  arguments than it has parameters raises TypeError. What it is called with, and what it
  returns, is a number, an array, or a list of arrays (which the array library reads as
  a matrix).
\<close>

datatype 'a pyval = Number 'a | Array "'a list" | Arrays "'a list list"

record 'a pyfunc =
  func_args :: "string list"
  func_body :: "'a pyval list \<Rightarrow> error + 'a pyval"

definition call :: "'a pyfunc \<Rightarrow> 'a pyval list \<Rightarrow> error + 'a pyval" where
  "call f actuals =
     (if length actuals = length (func_args f) then func_body f actuals else Inl TypeError)"

text \<open>
  The random generator is explicit state: the variates it will produce, each in
  \<open>[0, 1)\<close>, and how many of them have been drawn. \<^verbatim>\<open>uniform(size=(m, n))\<close> draws
  \<open>m * n\<close> of them, row by row, and raises on a negative size.
\<close>

record 'a RandomState =
  variates :: "nat \<Rightarrow> 'a"
  drawn :: nat

definition uniform :: "'a RandomState \<Rightarrow> nat \<Rightarrow> int \<Rightarrow> error + ('a list list \<times> 'a RandomState)" where
  "uniform rs m n =
     (if n < 0 then Inl ValueError
      else Inr (map (\<lambda>i. map (\<lambda>j. variates rs (drawn rs + i * nat n + j)) [0..<nat n]) [0..<m],
                rs\<lparr>drawn := drawn rs + m * nat n\<rparr>))"

record 'a SeriesIterator =
  rng :: "'a RandomState"
  func :: "'a pyfunc"
  seq_len :: nat
  batch_size :: nat
  series_num_params :: int

definition SeriesIterator_init ::
    "'a RandomState \<Rightarrow> 'a pyfunc \<Rightarrow> nat \<Rightarrow> nat \<Rightarrow> 'a SeriesIterator" where
  "SeriesIterator_init r f sl bs =
     \<lparr>rng = r, func = f, seq_len = sl, batch_size = bs,
      series_num_params = int (length (func_args f)) - 1\<rparr>"

record 'a batch =
  batch_x :: "'a list list list"
  batch_params :: "'a list list"

definition columns :: "'a list list \<Rightarrow> nat \<Rightarrow> 'a list list" where
  \<comment> \<open>\<^verbatim>\<open>list(params.T)\<close> for \<^verbatim>\<open>params\<close> of \<open>n\<close> columns.\<close>
  "columns params n = map (\<lambda>j. map (\<lambda>row. row ! j) params) [0..<n]"

fun store_row :: "nat \<Rightarrow> 'a pyval \<Rightarrow> error + 'a list" where
  \<comment> \<open>\<^verbatim>\<open>x[i, :, 0] = v\<close>: \<open>v\<close> is broadcast to the \<open>bs\<close> entries of the slice, or the
      assignment raises.\<close>
  "store_row bs (Number c) = Inr (replicate bs c)"
| "store_row bs (Array v) =
     (if length v = bs then Inr v
      else if length v = 1 then Inr (replicate bs (hd v))
      else Inl ValueError)"
| "store_row bs (Arrays vs) =
     (case vs of [v] \<Rightarrow> store_row bs (Array v) | _ \<Rightarrow> Inl ValueError)"

fun fill :: "'a::semiring_1 pyfunc \<Rightarrow> nat \<Rightarrow> 'a list list \<Rightarrow> nat list \<Rightarrow> error + 'a list list list" where
  \<comment> \<open>The loop of \<^verbatim>\<open>next\<close>: the function is called with two arguments, the list of all
      parameter columns and the time vector.\<close>
  "fill f bs cols [] = Inr []"
| "fill f bs cols (i # is) =
     bind_err (call f [Arrays cols, Array (replicate bs (of_nat i))]) (\<lambda>v.
     bind_err (store_row bs v) (\<lambda>row.
     bind_err (fill f bs cols is) (\<lambda>rest. Inr (map (\<lambda>y. [y]) row # rest))))"

definition "next" :: "'a::semiring_1 SeriesIterator \<Rightarrow> error + ('a batch \<times> 'a SeriesIterator)" where
  \<comment> \<open>The cast \<^verbatim>\<open>astype(floatX)\<close> is the identity here. The iterator is returned with
      the state of its generator after the draw.\<close>
  "next si =
     bind_err (uniform (rng si) (batch_size si) (series_num_params si)) (\<lambda>(params, rng').
     bind_err (fill (func si) (batch_size si) (columns params (nat (series_num_params si)))
                 [0..<seq_len si]) (\<lambda>x.
       Inr (\<lparr>batch_x = x, batch_params = params\<rparr>, si\<lparr>rng := rng'\<rparr>)))"

section \<open>main\<close>

definition main_num_params :: "'a pyfunc \<Rightarrow> int" where
  \<comment> \<open>line 154\<close>
  "main_num_params function = int (length (func_args function)) - 1"

definition main_with_params :: "('a, 'r) transition \<Rightarrow> 'b pyfunc \<Rightarrow> error + ('a, 'r) AddParameters" where
  \<comment> \<open>line 165\<close>
  "main_with_params t function = AddParameters_init t (main_num_params function) ''params''"

definition main_data :: "'a RandomState \<Rightarrow> 'a pyfunc \<Rightarrow> 'a SeriesIterator" where
  \<comment> \<open>lines 183 and 195\<close>
  "main_data r function = SeriesIterator_init r function 100 10"

text \<open>Functions a user can supply, and a generator.\<close>

definition scaled_time :: "real pyfunc" where
  \<comment> \<open>\<^verbatim>\<open>lambda a, x: a * x\<close>; with a list of one array for \<^verbatim>\<open>a\<close> the product is a
      matrix of one row.\<close>
  "scaled_time =
     \<lparr>func_args = [''a'', ''x''],
      func_body = (\<lambda>actuals. case actuals of
          [Array a, Array x] \<Rightarrow> Inr (Array (map2 (*) a x))
        | [Arrays [a], Array x] \<Rightarrow> Inr (Arrays [map2 (*) a x])
        | _ \<Rightarrow> Inl TypeError)\<rparr>"

definition line :: "real pyfunc" where
  \<comment> \<open>\<^verbatim>\<open>lambda a, b, x: a * x + b\<close>\<close>
  "line =
     \<lparr>func_args = [''a'', ''b'', ''x''],
      func_body = (\<lambda>actuals. case actuals of
          [Array a, Array b, Array x] \<Rightarrow> Inr (Array (map2 (+) (map2 (*) a x) b))
        | _ \<Rightarrow> Inl TypeError)\<rparr>"

definition halves :: "real RandomState" where
  "halves = \<lparr>variates = (\<lambda>k. 1 / (2 + of_nat k)), drawn = 0\<rparr>"

section \<open>The training cost and its noise\<close>










section \<open>Scoring a batch\<close>

definition select :: "nat list \<Rightarrow> 'b list \<Rightarrow> 'b list" where
  \<comment> \<open>The entries of a list at the given positions, in their order.\<close>
  "select p xs = map (nth xs) p"

fun tperm :: "nat list \<Rightarrow> 'a tensor \<Rightarrow> 'a tensor" where
  \<comment> \<open>Reordering the sequences of a batch: the batch is the first axis of a vector or a
      matrix, the second of a rank-3 array.\<close>
  "tperm p (Scal a) = Scal a"
| "tperm p (Vec v) = Vec (select p v)"
| "tperm p (Mat m) = Mat (select p m)"
| "tperm p (Seq s) = Seq (map (select p) s)"

fun aperm :: "nat list \<Rightarrow> 'a arg \<Rightarrow> 'a arg" where
  "aperm p (Tensor t) = Tensor (tperm p t)"
| "aperm p (Flag b) = Flag b"

definition kperm :: "nat list \<Rightarrow> 'a kwargs \<Rightarrow> 'a kwargs" where
  "kperm p kw = map_option (aperm p) \<circ> kw"

fun batch_of :: "nat \<Rightarrow> 'a tensor \<Rightarrow> bool" where
  \<comment> \<open>A matrix of \<open>B\<close> rows: one row for each sequence of the batch.\<close>
  "batch_of B (Mat m) = (length m = B)"
| "batch_of B _ = False"

definition batch_kwargs :: "nat \<Rightarrow> 'a kwargs \<Rightarrow> bool" where
  "batch_kwargs B kw \<longleftrightarrow> (\<forall>k t. kw k = Some (Tensor t) \<longrightarrow> batch_of B t)"

text \<open>
  Modelled from the spec: the scoring mode of the sequence generator (the library's
  \<^verbatim>\<open>SequenceGenerator.cost\<close>, whose code is not among the sources), as section 4.4
  of the spec gives it. The state starts as \<^verbatim>\<open>initial_state(params)\<close>; at each step
  the input is the previous target (zero at the first step), the readout is computed
  from the state and the input, the cost of the step is the emitter's cost of the
  readout against the target, and the next state is the injector's \<^verbatim>\<open>apply\<close> of
  state, input and params. The readout function \<open>rf\<close>, and the function \<open>gi\<close> that
  makes the named inputs of the cell from the input, are parameters. The result is the
  list, over time, of the costs of the sequences.
\<close>

definition step_kwargs ::
    "('a, 'r) AddParameters \<Rightarrow> ('a tensor \<Rightarrow> string \<rightharpoonup> 'a tensor) \<Rightarrow> 'a tensor \<Rightarrow> 'a tensor
     \<Rightarrow> 'a tensor \<Rightarrow> 'a kwargs" where
  "step_kwargs ap gi params state inp =
     (map_option Tensor \<circ> gi inp)
       (state_name ap \<mapsto> Tensor state, ''params'' \<mapsto> Tensor params, ''iterate'' \<mapsto> Flag False)"

fun scoring_steps ::
    "('a::{comm_monoid_add,minus,power,times}, 'a tensor) AddParameters
     \<Rightarrow> ('a tensor \<Rightarrow> 'a tensor \<Rightarrow> error + 'a tensor) \<Rightarrow> ('a tensor \<Rightarrow> string \<rightharpoonup> 'a tensor)
     \<Rightarrow> 'a tensor \<Rightarrow> 'a tensor \<Rightarrow> 'a tensor \<Rightarrow> 'a tensor list \<Rightarrow> error + 'a tensor list" where
  "scoring_steps ap rf gi params state inp [] = Inr []"
| "scoring_steps ap rf gi params state inp (target # targets) =
     bind_err (rf state inp) (\<lambda>readout.
     bind_err (Emitter_cost readout target) (\<lambda>cost.
     bind_err (AddParameters_apply ap (step_kwargs ap gi params state inp)) (\<lambda>state'.
     bind_err (scoring_steps ap rf gi params state' target targets) (\<lambda>costs.
       Inr (cost # costs)))))"

definition scoring ::
    "('a::{comm_monoid_add,minus,power,times}, 'a tensor) AddParameters
     \<Rightarrow> ('a tensor \<Rightarrow> 'a tensor \<Rightarrow> error + 'a tensor) \<Rightarrow> ('a tensor \<Rightarrow> string \<rightharpoonup> 'a tensor)
     \<Rightarrow> 'a tensor \<Rightarrow> 'a tensor list \<Rightarrow> error + 'a tensor list" where
  "scoring ap rf gi params targets =
     (case targets of
        [] \<Rightarrow> Inr []
      | target # _ \<Rightarrow>
          bind_err (initial_state ap None [''params'' \<mapsto> Tensor params]) (\<lambda>state.
            scoring_steps ap rf gi params state (tmap (\<lambda>_. 0) target) targets))"

fun cost_at :: "'a::zero tensor \<Rightarrow> nat \<Rightarrow> 'a" where
  "cost_at (Vec v) j = v ! j"
| "cost_at _ j = 0"

definition sequence_costs :: "nat \<Rightarrow> 'a::comm_monoid_add tensor list \<Rightarrow> 'a list" where
  \<comment> \<open>The cost of each of the \<open>B\<close> sequences: its costs summed over time.\<close>
  "sequence_costs B costs = map (\<lambda>j. \<Sum>c \<leftarrow> costs. cost_at c j) [0..<B]"

definition total_cost :: "'a::comm_monoid_add tensor list \<Rightarrow> 'a" where
  "total_cost costs = (\<Sum>c \<leftarrow> costs. tsum c)"

text \<open>
  What is asked of the parts of the generator that are parameters here, for a batch size
  \<open>B\<close> and a reordering \<open>p\<close>: the readout function, the function that makes the
  inputs, and the wrapped transition each take batches to batches, and a reordered batch
  to the reordered result.
\<close>

definition batchwise ::
    "nat \<Rightarrow> nat list \<Rightarrow> ('a, 'a tensor) transition \<Rightarrow> ('a tensor \<Rightarrow> 'a tensor \<Rightarrow> error + 'a tensor)
     \<Rightarrow> ('a tensor \<Rightarrow> string \<rightharpoonup> 'a tensor) \<Rightarrow> bool" where
  "batchwise B p t rf gi \<longleftrightarrow>
     (\<forall>s x. batch_of B s \<and> batch_of B x \<longrightarrow>
        rf (tperm p s) (tperm p x) = map_sum id (tperm p) (rf s x) \<and>
        (\<forall>r. rf s x = Inr r \<longrightarrow> batch_of B r)) \<and>
     (\<forall>x. batch_of B x \<longrightarrow>
        gi (tperm p x) = map_option (tperm p) \<circ> gi x \<and>
        (\<forall>k y. gi x k = Some y \<longrightarrow> batch_of B y)) \<and>
     (\<forall>kw. batch_kwargs B kw \<longrightarrow>
        transition_apply t (kperm p kw) = map_sum id (tperm p) (transition_apply t kw) \<and>
        (\<forall>s. transition_apply t kw = Inr s \<longrightarrow> batch_of B s))"

text \<open>
  A generator small enough to score by hand: a cell whose next state is its state plus
  its input, a readout that is the state, and the input fed to the port
  \<^verbatim>\<open>inputs\<close>.
\<close>

definition adding_cell :: "(int, int tensor) transition" where
  "adding_cell =
     \<lparr>sequences = [''inputs''],
      states = [''states''],
      contexts = [],
      transition_get_dim = (\<lambda>name.
         if name = ''inputs'' \<or> name = ''states'' then Inr 1 else Inl ValueError),
      transition_apply = (\<lambda>kw.
         case kw ''states'' of
           Some (Tensor s) \<Rightarrow>
             (case kw ''inputs'' of
                Some (Tensor x) \<Rightarrow> Inr (tadd s x)
              | _ \<Rightarrow> Inl (KeyError ''inputs''))
         | _ \<Rightarrow> Inl (KeyError ''states''))\<rparr>"

definition state_readout :: "int tensor \<Rightarrow> int tensor \<Rightarrow> error + int tensor" where
  "state_readout s x = Inr s"

definition to_inputs :: "int tensor \<Rightarrow> string \<rightharpoonup> int tensor" where
  "to_inputs x = [''inputs'' \<mapsto> x]"

definition adding_fork_params :: "string \<rightharpoonup> int Linear" where
  "adding_fork_params = [''inputs'' \<mapsto> \<lparr>lin_W = [[1]], lin_b = [0]\<rparr>]"

definition adding_init_params :: "int Linear list" where
  "adding_init_params = [\<lparr>lin_W = [[2]], lin_b = [1]\<rparr>]"

section \<open>Properties of AddParameters\<close>

lemma bind_err_Inr: "bind_err m f = Inr y \<longleftrightarrow> (\<exists>x. m = Inr x \<and> f x = Inr y)"
  by (cases m) (simp_all add: bind_err_def)

lemma construct_fields:
  assumes "construct t n pname fw iw = Inr ap"
  shows "transition ap = t" "num_params ap = n" "params_name ap = pname"
    "input_names ap = [name \<leftarrow> sequences t. name \<noteq> ''mask'']"
    "states t = [state_name ap]"
    "fork_names (fork ap) = input_names ap"
    "fork_params (fork ap) = fw"
    "linear_transformations (init ap) = iw"
    "activations (init ap) = [Identity]"
  using assms
  by (auto simp: construct_def bind_err_Inr AddParameters_init_def push_allocation_config_def
      set_parameters_def Let_def Fork_init_def MLP_init_def split: list.splits if_splits)

lemma pop_inputs_Inr:
  "pop_inputs ns kw inp = Inr (kw1, inp1) \<Longrightarrow>
     distinct ns \<and> (\<forall>n \<in> set ns. kw n \<noteq> None) \<and>
     kw1 = (\<lambda>k. if k \<in> set ns then None else kw k) \<and>
     inp1 = (\<lambda>k. if k \<in> set ns then kw k else inp k)"
proof (induction ns arbitrary: kw inp)
  case Nil
  then show ?case by simp
next
  case (Cons n ns)
  from Cons.prems obtain v where v: "kw n = Some v"
    and rec: "pop_inputs ns (kw(n := None)) (inp(n \<mapsto> v)) = Inr (kw1, inp1)"
    by (auto split: option.splits)
  from Cons.IH[OF rec] have d: "distinct ns"
    and pres: "\<forall>m \<in> set ns. (kw(n := None)) m \<noteq> None"
    and k1: "kw1 = (\<lambda>k. if k \<in> set ns then None else (kw(n := None)) k)"
    and i1: "inp1 = (\<lambda>k. if k \<in> set ns then (kw(n := None)) k else (inp(n \<mapsto> v)) k)"
    by blast+
  from pres have nn: "n \<notin> set ns" by auto
  from pres have pres': "\<forall>m \<in> set ns. kw m \<noteq> None" by (auto split: if_splits)
  show ?case using d nn pres' v by (auto simp: fun_eq_iff k1 i1)
qed




lemma example_construct:
  "\<exists>ap. construct (echo_transition 2) 1 ''params'' example_fork_params example_init_params = Inr ap"
  by (simp add: construct_def AddParameters_init_def push_allocation_config_def bind_err_def
      echo_transition_def Let_def MLP_init_def set_item_def)

lemma example_state_name:
  assumes c: "construct (echo_transition d) n pname fw iw = Inr ap"
  shows "state_name ap = ''states''"
  using construct_fields(5)[OF c] by (simp add: echo_transition_def)





text \<open>
  C5. For a brick as \<^verbatim>\<open>__init__\<close> returns it, and as it is once allocated,
  \<^verbatim>\<open>get_dim('params')\<close> is the number of parameters the brick was built with, and
  \<^verbatim>\<open>get_dim\<close> of any other name is what the wrapped transition's \<^verbatim>\<open>get_dim\<close>
  returns for it, an exception included.
\<close>

theorem get_dim_params_or_delegates:
  assumes "AddParameters_init t n pname = Inr ap \<or> construct t n pname fw iw = Inr ap"
  shows "get_dim ap ''params'' = Inr n \<and>
    (\<forall>name. name \<noteq> ''params'' \<longrightarrow> get_dim ap name = transition_get_dim t name)"
proof -
  from assms have "num_params ap = n \<and> transition ap = t"
  proof
    assume "AddParameters_init t n pname = Inr ap"
    then show ?thesis
      by (auto simp: AddParameters_init_def Let_def split: list.splits if_splits)
  next
    assume "construct t n pname fw iw = Inr ap"
    from construct_fields(1,2)[OF this] show ?thesis by simp
  qed
  then show ?thesis by (simp add: get_dim_def)
qed

theorem get_dim_params_or_delegates_witness:
  "\<exists>ap. construct (echo_transition 2) 1 ''params'' example_fork_params example_init_params = Inr ap \<and>
     get_dim ap ''params'' = Inr 1 \<and> get_dim ap ''inputs'' = Inr 2 \<and>
     get_dim ap ''mask'' = Inr 0 \<and> get_dim ap ''outputs'' = Inl ValueError"
proof -
  from example_construct obtain ap where
    c: "construct (echo_transition 2) 1 ''params'' example_fork_params example_init_params = Inr ap" ..
  from get_dim_params_or_delegates[OF disjI2, OF c]
  have "get_dim ap ''params'' = Inr 1 \<and> get_dim ap ''inputs'' = Inr 2 \<and>
     get_dim ap ''mask'' = Inr 0 \<and> get_dim ap ''outputs'' = Inl ValueError"
    by (simp add: echo_transition_def)
  with c show ?thesis by blast
qed

text \<open>
  C6. \<^verbatim>\<open>__init__\<close> fails on a transition that declares no state (reading
  \<^verbatim>\<open>states[0]\<close> raises IndexError) or more than one (the assertion fails); on a
  transition with exactly one state it succeeds, and the state name of the brick is that
  state.
\<close>

theorem init_requires_one_state:
  "(states t = [] \<longrightarrow> AddParameters_init t n pname = Inl IndexError) \<and>
   (1 < length (states t) \<longrightarrow> AddParameters_init t n pname = Inl AssertionError) \<and>
   (length (states t) \<noteq> 1 \<longrightarrow> isl (AddParameters_init t n pname)) \<and>
   (\<forall>s. states t = [s] \<longrightarrow>
      (\<exists>ap. AddParameters_init t n pname = Inr ap \<and> state_name ap = s \<and> transition ap = t))"
  by (cases "states t") (auto simp: AddParameters_init_def Let_def split: list.splits)

theorem init_requires_one_state_witness:
  "AddParameters_init (with_states []) 1 ''params'' = Inl IndexError \<and>
   AddParameters_init (with_states [''states'', ''cells'']) 1 ''params'' = Inl AssertionError \<and>
   (\<exists>ap. AddParameters_init (with_states [''states'']) 1 ''params'' = Inr ap \<and>
      state_name ap = ''states'' \<and> transition ap = with_states [''states''])"
proof -
  have a: "states (with_states []) = []" by (simp add: with_states_def)
  have b: "1 < length (states (with_states [''states'', ''cells'']))" by (simp add: with_states_def)
  have c: "states (with_states [''states'']) = [''states'']" by (simp add: with_states_def)
  from init_requires_one_state[of "with_states []" 1 "''params''"] a
  have 1: "AddParameters_init (with_states []) 1 ''params'' = Inl IndexError" by blast
  from init_requires_one_state[of "with_states [''states'', ''cells'']" 1 "''params''"] b
  have 2: "AddParameters_init (with_states [''states'', ''cells'']) 1 ''params'' = Inl AssertionError"
    by blast
  from init_requires_one_state[of "with_states [''states'']" 1 "''params''"] c
  have 3: "\<exists>ap. AddParameters_init (with_states [''states'']) 1 ''params'' = Inr ap \<and>
      state_name ap = ''states'' \<and> transition ap = with_states [''states'']" by blast
  from 1 2 3 show ?thesis by blast
qed




lemma fold_affine:
  fixes acc :: "'a::semiring_0 list"
  assumes "\<forall>p \<in> set ps. length (snd p) = length acc"
  shows "length (fold (\<lambda>(xi, Wi) acc. map2 (+) acc (map ((*) xi) Wi)) ps acc) = length acc \<and>
    (\<forall>j < length acc. fold (\<lambda>(xi, Wi) acc. map2 (+) acc (map ((*) xi) Wi)) ps acc ! j =
        acc ! j + (\<Sum>k<length ps. fst (ps ! k) * snd (ps ! k) ! j))"
  using assms
proof (induction ps arbitrary: acc)
  case Nil
  then show ?case by simp
next
  case (Cons p ps)
  obtain xi Wi where p: "p = (xi, Wi)" by (cases p)
  define acc' where "acc' = map2 (+) acc (map ((*) xi) Wi)"
  from Cons.prems p have lw: "length Wi = length acc" by simp
  then have la: "length acc' = length acc" by (simp add: acc'_def)
  from Cons.prems la have "\<forall>q \<in> set ps. length (snd q) = length acc'" by simp
  from Cons.IH[OF this] have
    len: "length (fold (\<lambda>(xi, Wi) acc. map2 (+) acc (map ((*) xi) Wi)) ps acc') = length acc'" and
    val: "\<forall>j < length acc'. fold (\<lambda>(xi, Wi) acc. map2 (+) acc (map ((*) xi) Wi)) ps acc' ! j =
        acc' ! j + (\<Sum>k<length ps. fst (ps ! k) * snd (ps ! k) ! j)"
    by blast+
  have step: "fold (\<lambda>(xi, Wi) acc. map2 (+) acc (map ((*) xi) Wi)) (p # ps) acc =
      fold (\<lambda>(xi, Wi) acc. map2 (+) acc (map ((*) xi) Wi)) ps acc'"
    by (simp add: p acc'_def)
  have "\<forall>j < length acc. fold (\<lambda>(xi, Wi) acc. map2 (+) acc (map ((*) xi) Wi)) (p # ps) acc ! j =
        acc ! j + (\<Sum>k<length (p # ps). fst ((p # ps) ! k) * snd ((p # ps) ! k) ! j)"
  proof (intro allI impI)
    fix j assume j: "j < length acc"
    with lw have a: "acc' ! j = acc ! j + xi * Wi ! j" by (simp add: acc'_def)
    have b: "(\<Sum>k<length (p # ps). fst ((p # ps) ! k) * snd ((p # ps) ! k) ! j) =
        xi * Wi ! j + (\<Sum>k<length ps. fst (ps ! k) * snd (ps ! k) ! j)"
      unfolding length_Cons sum.lessThan_Suc_shift by (simp add: p)
    from val j la have v: "fold (\<lambda>(xi, Wi) acc. map2 (+) acc (map ((*) xi) Wi)) ps acc' ! j =
        acc' ! j + (\<Sum>k<length ps. fst (ps ! k) * snd (ps ! k) ! j)" by simp
    show "fold (\<lambda>(xi, Wi) acc. map2 (+) acc (map ((*) xi) Wi)) (p # ps) acc ! j =
        acc ! j + (\<Sum>k<length (p # ps). fst ((p # ps) ! k) * snd ((p # ps) ! k) ! j)"
      unfolding step b v a by (rule add.assoc)
  qed
  with len la step show ?case by simp
qed

lemma affine_shaped:
  fixes l :: "'a::semiring_0 Linear"
  assumes sh: "Linear_shaped n d l" and x: "int (length x) = n"
  shows "int (length (affine l x)) = d \<and>
     (\<forall>j < nat d. affine l x ! j = lin_b l ! j + (\<Sum>i<nat n. x ! i * lin_W l ! i ! j))"
proof -
  from sh have lw: "int (length (lin_W l)) = n" and rows: "\<forall>r \<in> set (lin_W l). int (length r) = d"
    and lb: "int (length (lin_b l)) = d" by (auto simp: Linear_shaped_def)
  have "\<forall>p \<in> set (zip x (lin_W l)). length (snd p) = length (lin_b l)"
  proof
    fix p assume "p \<in> set (zip x (lin_W l))"
    then have "snd p \<in> set (lin_W l)" by (metis prod.collapse set_zip_rightD)
    with rows lb show "length (snd p) = length (lin_b l)" by auto
  qed
  from fold_affine[OF this] have
    len: "length (affine l x) = length (lin_b l)" and
    val: "\<forall>j < length (lin_b l). affine l x ! j =
        lin_b l ! j + (\<Sum>k<length (zip x (lin_W l)). fst (zip x (lin_W l) ! k) * snd (zip x (lin_W l) ! k) ! j)"
    by (simp_all add: affine_def)
  from x lw have lz: "length (zip x (lin_W l)) = nat n" by auto
  have "\<forall>j < nat d. affine l x ! j = lin_b l ! j + (\<Sum>i<nat n. x ! i * lin_W l ! i ! j)"
  proof (intro allI impI)
    fix j assume "j < nat d"
    with lb have "j < length (lin_b l)" by auto
    with val have "affine l x ! j =
        lin_b l ! j + (\<Sum>k<length (zip x (lin_W l)). fst (zip x (lin_W l) ! k) * snd (zip x (lin_W l) ! k) ! j)"
      by blast
    also have "(\<Sum>k<length (zip x (lin_W l)). fst (zip x (lin_W l) ! k) * snd (zip x (lin_W l) ! k) ! j) =
         (\<Sum>i<nat n. x ! i * lin_W l ! i ! j)"
      unfolding lz using lz by (intro sum.cong) auto
    finally show "affine l x ! j = lin_b l ! j + (\<Sum>i<nat n. x ! i * lin_W l ! i ! j)" .
  qed
  with len lb show ?thesis by simp
qed

lemma construct_dims:
  assumes c: "construct t n pname fw iw = Inr ap"
  shows "\<exists>d. transition_get_dim t (state_name ap) = Inr d \<and> dims (init ap) = [Some n, Some d]"
  using c
  by (auto simp: construct_def bind_err_Inr AddParameters_init_def push_allocation_config_def
      set_parameters_def Let_def MLP_init_def set_item_def split: list.splits if_splits)

text \<open>
  C4. In a constructed and allocated brick the \<^verbatim>\<open>init\<close> network has the single
  activation \<^verbatim>\<open>Identity\<close> and the dimensions \<^verbatim>\<open>[num_params, get_dim(state_name)]\<close>,
  and \<^verbatim>\<open>initial_state\<close> returns its one learned layer applied to each row of
  \<^verbatim>\<open>params\<close>, whatever \<^verbatim>\<open>batch_size\<close> and the other keyword arguments are. For a
  layer of the allocated shape, each row of \<open>num_params\<close> components is mapped to a row
  of as many components as the state port has, component \<open>j\<close> being
  \<open>b\<^sub>j + \<Sum>i. x\<^sub>i * W\<^sub>i\<^sub>j\<close>: affine, with no nonlinearity.
\<close>

theorem initial_state_affine:
  fixes l :: "'a::semiring_0 Linear"
  assumes c: "construct t n pname fw [l] = Inr ap"
  shows "\<exists>d. transition_get_dim t (state_name ap) = Inr d \<and>
      dims (init ap) = [Some n, Some d] \<and> activations (init ap) = [Identity] \<and>
      (\<forall>bs kw P. initial_state ap bs (kw(''params'' \<mapsto> Tensor (Mat P))) = Inr (Mat (map (affine l) P))) \<and>
      (Linear_shaped n d l \<longrightarrow>
         (\<forall>x. int (length x) = n \<longrightarrow>
            int (length (affine l x)) = d \<and>
            (\<forall>j < nat d. affine l x ! j = lin_b l ! j + (\<Sum>i<nat n. x ! i * lin_W l ! i ! j))))"
proof -
  from construct_dims[OF c] obtain d where d: "transition_get_dim t (state_name ap) = Inr d"
    "dims (init ap) = [Some n, Some d]" by blast
  note f = construct_fields(8,9)[OF c]
  have "initial_state ap bs (kw(''params'' \<mapsto> Tensor (Mat P))) = Inr (Mat (map (affine l) P))"
    for bs kw P
    by (simp add: initial_state_def MLP_apply_def f bind_err_def Identity_def)
  with d f affine_shaped[of n d l] show ?thesis by blast
qed

theorem initial_state_affine_witness:
  "\<exists>ap. construct (echo_transition 2) 1 ''params'' example_fork_params example_init_params = Inr ap \<and>
     dims (init ap) = [Some 1, Some 2] \<and>
     Linear_shaped 1 2 (hd example_init_params) \<and>
     initial_state ap None [''params'' \<mapsto> Tensor (Mat [[2], [0 - 1]])] = Inr (Mat [[11, 14], [2, 2]])"
proof -
  from example_construct obtain ap where
    c: "construct (echo_transition 2) 1 ''params'' example_fork_params example_init_params = Inr ap" ..
  then have c': "construct (echo_transition 2) 1 ''params'' example_fork_params
      [\<lparr>lin_W = [[3, 4]], lin_b = [5, 6]\<rparr>] = Inr ap"
    by (simp add: example_init_params_def)
  have sh: "Linear_shaped 1 2 (hd example_init_params)"
    by (simp add: Linear_shaped_def example_init_params_def)
  from initial_state_affine[OF c'] obtain d where
    d: "transition_get_dim (echo_transition 2 :: (int, int kwargs) transition) (state_name ap) = Inr d"
      "dims (init ap) = [Some 1, Some d]"
    and i: "\<forall>bs kw P. initial_state ap bs (kw(''params'' \<mapsto> Tensor (Mat P))) =
        Inr (Mat (map (affine \<lparr>lin_W = [[3, 4]], lin_b = [5, 6]\<rparr>) P))"
    by blast
  from d(1) have "d = 2" by (simp add: example_state_name[OF c] echo_transition_def)
  moreover from i have "initial_state ap None [''params'' \<mapsto> Tensor (Mat [[2], [0 - 1]])] =
      Inr (Mat [[11, 14], [2, 2]])"
    by (simp add: affine_def)
  ultimately show ?thesis using c d(2) sh by blast
qed

section \<open>Properties of the emitter's cost\<close>



section \<open>Properties of SeriesIterator\<close>

lemma next_Inr:
  assumes "next si = Inr (b, si')"
  shows "0 \<le> series_num_params si \<and> length (batch_params b) = batch_size si \<and>
     (\<forall>row \<in> set (batch_params b). int (length row) = series_num_params si)"
  using assms
  by (auto simp: next_def uniform_def bind_err_Inr split: if_splits prod.splits)

lemma fill_arity:
  assumes "length (func_args f) \<noteq> 2"
  shows "fill f bs cols (i # is) = Inl TypeError"
  using assms by (simp add: call_def bind_err_def)

lemma next_raises_unless_one_parameter:
  assumes "length (func_args f) \<noteq> 2" and "0 < sl"
  shows "next (SeriesIterator_init r f sl bs) =
     (if func_args f = [] then Inl ValueError else Inl TypeError)"
proof -
  from \<open>0 < sl\<close> obtain is' where "[0..<sl] = 0 # is'" by (auto simp: upt_conv_Cons)
  with assms(1) show ?thesis
    by (simp add: next_def SeriesIterator_init_def uniform_def bind_err_def call_def)
qed

lemma example_next:
  "next (SeriesIterator_init halves scaled_time 3 2) =
     Inr (\<lparr>batch_x = [[[0], [0]], [[1 / 2], [1 / 3]], [[1], [2 / 3]]],
              batch_params = [[1 / 2], [1 / 3]]\<rparr>,
          (SeriesIterator_init halves scaled_time 3 2)\<lparr>rng := halves\<lparr>drawn := 2\<rparr>\<rparr>)"
  by (simp add: next_def SeriesIterator_init_def uniform_def bind_err_def scaled_time_def
      halves_def upt_rec call_def columns_def numeral_2_eq_2)

text \<open>
  C7, at a function of two parameters. With \<^verbatim>\<open>lambda a, b, x: a * x + b\<close> the
  iterator has \<^verbatim>\<open>num_params = 2\<close>, but \<^verbatim>\<open>next\<close> calls the function with two
  arguments, the list of both parameter columns and the time vector, and raises
  TypeError: no batch is returned. Called with the two columns and the time vector as
  three arguments, as \<^verbatim>\<open>main\<close> calls it when plotting, the function returns the
  targets.
\<close>

theorem next_raises_for_two_parameters:
  "next (SeriesIterator_init halves line 3 2) = Inl TypeError \<and>
   series_num_params (SeriesIterator_init halves line 3 2) = 2 \<and>
   call line [Array [1 / 2, 1 / 3], Array [1 / 4, 1 / 5], Array [2, 2]] = Inr (Array [5 / 4, 13 / 15])"
  by (simp add: next_def SeriesIterator_init_def uniform_def bind_err_def line_def halves_def
      upt_rec call_def)

text \<open>
  C10. The iterator and \<^verbatim>\<open>main\<close> both take the number of parameters to be the
  number of the function's arguments less one. Every batch that \<^verbatim>\<open>next\<close> returns
  has a \<^verbatim>\<open>params\<close> array of \<^verbatim>\<open>batch_size\<close> rows, each of as many entries as
  \<^verbatim>\<open>get_dim('params')\<close> of the brick that \<^verbatim>\<open>main\<close> builds for the same function.
\<close>

theorem params_shape_is_params_dim:
  assumes n: "next (SeriesIterator_init r f sl bs) = Inr (b, si')"
    and w: "main_with_params t f = Inr ap"
  shows "series_num_params (SeriesIterator_init r f sl bs) = int (length (func_args f)) - 1 \<and>
     num_params ap = int (length (func_args f)) - 1 \<and>
     length (batch_params b) = bs \<and>
     (\<forall>row \<in> set (batch_params b). get_dim ap ''params'' = Inr (int (length row)))"
proof -
  have s: "series_num_params (SeriesIterator_init r f sl bs) = int (length (func_args f)) - 1"
    and bs: "batch_size (SeriesIterator_init r f sl bs) = bs"
    by (simp_all add: SeriesIterator_init_def)
  from w have np: "num_params ap = int (length (func_args f)) - 1"
    by (auto simp: main_with_params_def main_num_params_def AddParameters_init_def Let_def
        split: list.splits if_splits)
  from next_Inr[OF n] s bs have "length (batch_params b) = bs"
    and "\<forall>row \<in> set (batch_params b). int (length row) = int (length (func_args f)) - 1"
    by simp_all
  with s np show ?thesis by (simp add: get_dim_def)
qed

theorem params_shape_is_params_dim_witness:
  "\<exists>b si' ap. next (SeriesIterator_init halves scaled_time 3 2) = Inr (b, si') \<and>
     main_with_params (echo_transition 2 :: (int, int kwargs) transition) scaled_time = Inr ap \<and>
     batch_params b = [[1 / 2], [1 / 3]] \<and> num_params ap = 1 \<and> get_dim ap ''params'' = Inr 1"
proof -
  obtain ap where w: "main_with_params (echo_transition 2 :: (int, int kwargs) transition) scaled_time = Inr ap"
    by (simp add: main_with_params_def AddParameters_init_def echo_transition_def Let_def)
  from params_shape_is_params_dim[OF example_next w]
  have "num_params ap = 1 \<and> get_dim ap ''params'' = Inr 1"
    by (simp add: scaled_time_def)
  with example_next w show ?thesis by simp
qed

section \<open>Properties of the training cost\<close>








section \<open>Properties of scoring under a reordering of the batch\<close>


lemma map_sum_bind_err:
  "map_sum id g (bind_err m f) = bind_err m (\<lambda>x. map_sum id g (f x))"
  by (cases m) (simp_all add: bind_err_def)

lemma bind_err_map_sum:
  "bind_err (map_sum id g m) f = bind_err m (\<lambda>x. f (g x))"
  by (cases m) (simp_all add: bind_err_def)

lemma select_map: "set p \<subseteq> {..<length xs} \<Longrightarrow> select p (map f xs) = map f (select p xs)"
  by (auto simp: select_def)

lemma select_map2:
  "set p \<subseteq> {..<length a} \<Longrightarrow> length a = length b \<Longrightarrow>
     select p (map2 f a b) = map2 f (select p a) (select p b)"
  by (induction p) (auto simp: select_def)

lemma length_select: "length (select p xs) = length p"
  by (simp add: select_def)

lemma tadd_tperm:
  assumes "batch_of B x" "batch_of B f" "set p \<subseteq> {..<B}"
  shows "tadd (tperm p x) (tperm p f) = tperm p (tadd x f) \<and> batch_of B (tadd x f)"
proof -
  from assms obtain a b where [simp]: "x = Mat a" "f = Mat b" and l: "length a = B" "length b = B"
    by (cases x; cases f) auto
  from l assms(3) show ?thesis by (simp add: tadd_def select_map2)
qed

lemma Linear_apply_tperm:
  assumes "batch_of B x" "set p \<subseteq> {..<B}"
  shows "Linear_apply l (tperm p x) = map_sum id (tperm p) (Linear_apply l x) \<and>
    (\<forall>y. Linear_apply l x = Inr y \<longrightarrow> batch_of B y)"
proof -
  from assms obtain a where [simp]: "x = Mat a" and l: "length a = B" by (cases x) auto
  from l assms(2) show ?thesis by (auto simp: select_map)
qed

lemma pop_inputs_kperm:
  "pop_inputs ns (kperm p kw) (kperm p inp) =
     map_sum id (\<lambda>(a, b). (kperm p a, kperm p b)) (pop_inputs ns kw inp)"
proof (induction ns arbitrary: kw inp)
  case Nil
  then show ?case by simp
next
  case (Cons n ns)
  show ?case
  proof (cases "kw n")
    case None
    then show ?thesis by (simp add: kperm_def)
  next
    case (Some v)
    have 1: "(kperm p kw)(n := None) = kperm p (kw(n := None))"
      by (simp add: kperm_def fun_eq_iff)
    have 2: "(kperm p inp)(n \<mapsto> aperm p v) = kperm p (inp(n \<mapsto> v))"
      by (simp add: kperm_def fun_eq_iff)
    from Some have kn: "kperm p kw n = Some (aperm p v)" by (simp add: kperm_def)
    have "pop_inputs (n # ns) (kperm p kw) (kperm p inp) =
        pop_inputs ns ((kperm p kw)(n := None)) ((kperm p inp)(n \<mapsto> aperm p v))"
      using kn by simp
    also have "\<dots> = pop_inputs ns (kperm p (kw(n := None))) (kperm p (inp(n \<mapsto> v)))"
      by (simp only: 1 2)
    also have "\<dots> = map_sum id (\<lambda>(a, b). (kperm p a, kperm p b))
        (pop_inputs ns (kw(n := None)) (inp(n \<mapsto> v)))"
      by (rule Cons.IH)
    also have "pop_inputs ns (kw(n := None)) (inp(n \<mapsto> v)) = pop_inputs (n # ns) kw inp"
      using Some by simp
    finally show ?thesis .
  qed
qed

lemma pop_inputs_batch:
  "pop_inputs ns kw inp = Inr (kw1, inp1) \<Longrightarrow> batch_kwargs B kw \<Longrightarrow> batch_kwargs B inp \<Longrightarrow>
     batch_kwargs B kw1 \<and> batch_kwargs B inp1"
  by (drule pop_inputs_Inr) (auto simp: batch_kwargs_def split: if_splits)

lemma Fork_outputs_tperm:
  assumes "batch_of B x" "set p \<subseteq> {..<B}"
  shows "Fork_outputs fk ns (tperm p x) =
       map_sum id (\<lambda>d. map_option (tperm p) \<circ> d) (Fork_outputs fk ns x) \<and>
     (\<forall>d k y. Fork_outputs fk ns x = Inr d \<longrightarrow> d k = Some y \<longrightarrow> batch_of B y)"
proof (induction ns)
  case Nil
  then show ?case by (simp add: fun_eq_iff)
next
  case (Cons n ns)
  show ?case
  proof (cases "fork_params fk n")
    case None
    then show ?thesis by simp
  next
    case (Some l)
    note L = Linear_apply_tperm[OF assms, of l]
    show ?thesis
    proof (cases "Linear_apply l x")
      case (Inl e)
      with Some L show ?thesis by (simp add: bind_err_def)
    next
      case (Inr y)
      with L have y: "Linear_apply l (tperm p x) = Inr (tperm p y)" "batch_of B y" by auto
      show ?thesis
      proof (cases "Fork_outputs fk ns x")
        case (Inl e)
        with Some Inr y Cons.IH show ?thesis by (simp add: bind_err_def)
      next
        case r: (Inr d)
        with Cons.IH have d: "Fork_outputs fk ns (tperm p x) = Inr (map_option (tperm p) \<circ> d)"
          and b: "\<forall>k y. d k = Some y \<longrightarrow> batch_of B y" by auto
        have dd: "dom (map_option (tperm p) \<circ> d) = dom d" by (auto simp: dom_def)
        have up: "(map_option (tperm p) \<circ> d)(n \<mapsto> tperm p y) = map_option (tperm p) \<circ> (d(n \<mapsto> y))"
          by (simp add: fun_eq_iff)
        have lhs: "Fork_outputs fk (n # ns) (tperm p x) =
            Inr (if n \<in> dom d then map_option (tperm p) \<circ> d
                 else map_option (tperm p) \<circ> (d(n \<mapsto> y)))"
          using Some y(1) d dd by (auto simp: bind_err_def fun_eq_iff)
        have rhs: "Fork_outputs fk (n # ns) x = Inr (if n \<in> dom d then d else d(n \<mapsto> y))"
          using Some Inr r by (simp add: bind_err_def)
        have bb: "\<forall>k z. (if n \<in> dom d then d else d(n \<mapsto> y)) k = Some z \<longrightarrow> batch_of B z"
          using b y(2) by (auto split: if_splits)
        show ?thesis unfolding lhs rhs using bb by (auto simp: fun_eq_iff)
      qed
    qed
  qed
qed

lemma add_forks_kperm:
  assumes "set p \<subseteq> {..<B}" "\<forall>k f. forks k = Some f \<longrightarrow> batch_of B f"
  shows "batch_kwargs B inp \<Longrightarrow>
     add_forks ns (map_option (tperm p) \<circ> forks) (kperm p inp) =
       map_sum id (kperm p) (add_forks ns forks inp) \<and>
     (\<forall>inp'. add_forks ns forks inp = Inr inp' \<longrightarrow> batch_kwargs B inp')"
proof (induction ns arbitrary: inp)
  case Nil
  then show ?case by simp
next
  case (Cons n ns)
  show ?case
  proof (cases "inp n")
    case None
    then show ?thesis by (simp add: kperm_def)
  next
    case (Some v)
    show ?thesis
    proof (cases v)
      case (Flag b)
      with Some show ?thesis by (simp add: kperm_def)
    next
      case (Tensor x)
      with Some Cons.prems have bx: "batch_of B x" by (auto simp: batch_kwargs_def)
      show ?thesis
      proof (cases "forks n")
        case None
        with Some Tensor show ?thesis by (simp add: kperm_def)
      next
        case f: (Some f)
        with assms(2) have bf: "batch_of B f" by blast
        note T = tadd_tperm[OF bx bf assms(1)]
        have b': "batch_kwargs B (inp(n \<mapsto> Tensor (tadd x f)))"
          using Cons.prems T by (auto simp: batch_kwargs_def)
        have e: "(kperm p inp)(n \<mapsto> Tensor (tadd (tperm p x) (tperm p f))) =
            kperm p (inp(n \<mapsto> Tensor (tadd x f)))"
          using T by (simp add: kperm_def fun_eq_iff)
        from Cons.IH[OF b'] have
          ih: "add_forks ns (map_option (tperm p) \<circ> forks) (kperm p (inp(n \<mapsto> Tensor (tadd x f)))) =
             map_sum id (kperm p) (add_forks ns forks (inp(n \<mapsto> Tensor (tadd x f))))" and
          ib: "\<forall>inp'. add_forks ns forks (inp(n \<mapsto> Tensor (tadd x f))) = Inr inp' \<longrightarrow>
             batch_kwargs B inp'"
          by blast+
        have kn: "kperm p inp n = Some (Tensor (tperm p x))"
          using Some Tensor by (simp add: kperm_def)
        have "add_forks (n # ns) (map_option (tperm p) \<circ> forks) (kperm p inp) =
            add_forks ns (map_option (tperm p) \<circ> forks)
              ((kperm p inp)(n \<mapsto> Tensor (tadd (tperm p x) (tperm p f))))"
          using kn f by simp
        also have "\<dots> = map_sum id (kperm p) (add_forks ns forks (inp(n \<mapsto> Tensor (tadd x f))))"
          by (simp only: e ih)
        also have re: "add_forks ns forks (inp(n \<mapsto> Tensor (tadd x f))) = add_forks (n # ns) forks inp"
          using Some Tensor f by simp
        finally show ?thesis using ib unfolding re by blast
      qed
    qed
  qed
qed

lemma MLP_apply_tperm:
  assumes act: "activations m = [Identity]" and bx: "batch_of B x" and p: "set p \<subseteq> {..<B}"
  shows "MLP_apply m (tperm p x) = map_sum id (tperm p) (MLP_apply m x) \<and>
    (\<forall>y. MLP_apply m x = Inr y \<longrightarrow> batch_of B y)"
proof (cases "linear_transformations m")
  case Nil
  with act show ?thesis by (simp add: MLP_apply_def)
next
  case (Cons l ls)
  show ?thesis
  proof (cases ls)
    case Nil
    note L = Linear_apply_tperm[OF bx p, of l]
    show ?thesis
    proof (cases "Linear_apply l x")
      case (Inl e)
      with L act Cons Nil show ?thesis by (simp add: MLP_apply_def bind_err_def)
    next
      case (Inr y)
      with L act Cons Nil show ?thesis by (simp add: MLP_apply_def bind_err_def Identity_def)
    qed
  next
    case (Cons l' ls')
    with act \<open>linear_transformations m = l # ls\<close> show ?thesis by (simp add: MLP_apply_def)
  qed
qed

lemma kperm_empty: "kperm p Map.empty = Map.empty"
  by (simp add: kperm_def fun_eq_iff)

lemma kperm_upd: "kperm p (kw(k \<mapsto> v)) = (kperm p kw)(k \<mapsto> aperm p v)"
  by (simp add: kperm_def fun_eq_iff)

lemma kperm_del: "kperm p (kw(k := None)) = (kperm p kw)(k := None)"
  by (simp add: kperm_def fun_eq_iff)

lemma kperm_add: "kperm p (a ++ b) = kperm p a ++ kperm p b"
  by (auto simp: kperm_def fun_eq_iff map_add_def split: option.splits)

lemma kperm_truthy:
  "truthy (case kperm p kw k of None \<Rightarrow> Flag True | Some v \<Rightarrow> v) =
   truthy (case kw k of None \<Rightarrow> Flag True | Some v \<Rightarrow> v)"
proof (cases "kw k")
  case None
  then show ?thesis by (simp add: kperm_def)
next
  case (Some v)
  then show ?thesis by (cases v) (simp_all add: kperm_def)
qed

lemma batch_kwargs_upd:
  "batch_kwargs B kw \<Longrightarrow> batch_of B t \<Longrightarrow> batch_kwargs B (kw(k \<mapsto> Tensor t))"
  by (auto simp: batch_kwargs_def)

lemma batch_kwargs_flag: "batch_kwargs B kw \<Longrightarrow> batch_kwargs B (kw(k \<mapsto> Flag b))"
  by (auto simp: batch_kwargs_def)

lemma batch_kwargs_del: "batch_kwargs B kw \<Longrightarrow> batch_kwargs B (kw(k := None))"
  by (auto simp: batch_kwargs_def)

lemma batch_kwargs_add: "batch_kwargs B a \<Longrightarrow> batch_kwargs B b \<Longrightarrow> batch_kwargs B (a ++ b)"
  by (auto simp: batch_kwargs_def map_add_def split: option.splits)

lemma delegated_kwargs_kperm:
  assumes bk: "batch_kwargs B kw" and p: "set p \<subseteq> {..<B}"
    and act: "activations (init ap) = [Identity]"
  shows "delegated_kwargs ap (kperm p kw) = map_sum id (kperm p) (delegated_kwargs ap kw) \<and>
    (\<forall>kw'. delegated_kwargs ap kw = Inr kw' \<longrightarrow> batch_kwargs B kw')"
proof (cases "pop_inputs (input_names ap) kw Map.empty")
  case (Inl e)
  with pop_inputs_kperm[of "input_names ap" p kw Map.empty]
  have "pop_inputs (input_names ap) (kperm p kw) Map.empty = Inl e" by (simp add: kperm_empty)
  with Inl show ?thesis by (simp add: delegated_kwargs_def bind_err_def)
next
  case (Inr r)
  obtain kw1 inp1 where r: "r = (kw1, inp1)" by (cases r)
  with Inr have pop: "pop_inputs (input_names ap) kw Map.empty = Inr (kw1, inp1)" by simp
  with pop_inputs_kperm[of "input_names ap" p kw Map.empty]
  have pop': "pop_inputs (input_names ap) (kperm p kw) Map.empty = Inr (kperm p kw1, kperm p inp1)"
    by (simp add: kperm_empty)
  have be: "batch_kwargs B (Map.empty :: 'a kwargs)" by (simp add: batch_kwargs_def)
  from pop_inputs_batch[OF pop bk be] have b1: "batch_kwargs B kw1" and bi: "batch_kwargs B inp1"
    by blast+
  show ?thesis
  proof (cases "kw1 ''params''")
    case None
    then have "kperm p kw1 ''params'' = None" by (simp add: kperm_def)
    with None pop pop' show ?thesis by (simp add: delegated_kwargs_def bind_err_def)
  next
    case (Some v)
    show ?thesis
    proof (cases v)
      case (Flag b)
      with Some have "kperm p kw1 ''params'' = Some (Flag b)" by (simp add: kperm_def)
      with Some Flag pop pop' show ?thesis by (simp add: delegated_kwargs_def bind_err_def)
    next
      case (Tensor pv)
      with Some have kp: "kw1 ''params'' = Some (Tensor pv)"
        and kp': "kperm p kw1 ''params'' = Some (Tensor (tperm p pv))" by (simp_all add: kperm_def)
      from kp b1 have bpv: "batch_of B pv" by (auto simp: batch_kwargs_def)
      note F = Fork_outputs_tperm[OF bpv p, of "fork ap" "fork_names (fork ap)"]
      show ?thesis
      proof (cases "Fork_apply (fork ap) pv")
        case (Inl e)
        with F have "Fork_apply (fork ap) (tperm p pv) = Inl e" by (simp add: Fork_apply_def)
        with Inl kp kp' pop pop' show ?thesis by (simp add: delegated_kwargs_def bind_err_def)
      next
        case fk: (Inr forks)
        with F have fk': "Fork_apply (fork ap) (tperm p pv) = Inr (map_option (tperm p) \<circ> forks)"
          and bf: "\<forall>k f. forks k = Some f \<longrightarrow> batch_of B f"
          by (auto simp: Fork_apply_def)
        note A = add_forks_kperm[OF p bf bi, of "input_names ap"]
        show ?thesis
        proof (cases "add_forks (input_names ap) forks inp1")
          case (Inl e)
          with A have "add_forks (input_names ap) (map_option (tperm p) \<circ> forks) (kperm p inp1) = Inl e"
            by simp
          with Inl fk fk' kp kp' pop pop' show ?thesis
            by (simp add: delegated_kwargs_def bind_err_def)
        next
          case af: (Inr inputs')
          with A have af': "add_forks (input_names ap) (map_option (tperm p) \<circ> forks) (kperm p inp1) =
              Inr (kperm p inputs')" and bi': "batch_kwargs B inputs'" by auto
          define kw3 where "kw3 = kw1(''params'' := None) ++ inputs'"
          have k3: "(kperm p kw1)(''params'' := None) ++ kperm p inputs' = kperm p kw3"
            by (simp add: kw3_def kperm_add kperm_del)
          have b3: "batch_kwargs B kw3"
            unfolding kw3_def by (intro batch_kwargs_add batch_kwargs_del b1 bi')
          have lhs: "delegated_kwargs ap (kperm p kw) =
              (if truthy (case kw3 ''iterate'' of None \<Rightarrow> Flag True | Some v \<Rightarrow> v)
               then bind_err (initial_state ap None [''params'' \<mapsto> Tensor (tperm p pv)]) (\<lambda>s.
                      Inr ((kperm p kw3)(state_name ap \<mapsto> Tensor s)))
               else Inr (kperm p kw3))"
            using pop' kp' fk' af'
            by (simp add: delegated_kwargs_def bind_err_def Let_def k3 kperm_truthy
                del: fun_upd_apply)
          have rhs: "delegated_kwargs ap kw =
              (if truthy (case kw3 ''iterate'' of None \<Rightarrow> Flag True | Some v \<Rightarrow> v)
               then bind_err (initial_state ap None [''params'' \<mapsto> Tensor pv]) (\<lambda>s.
                      Inr (kw3(state_name ap \<mapsto> Tensor s)))
               else Inr kw3)"
            using pop kp fk af
            by (simp add: delegated_kwargs_def bind_err_def Let_def kw3_def del: fun_upd_apply)
          note M = MLP_apply_tperm[OF act bpv p]
          have is': "initial_state ap None [''params'' \<mapsto> Tensor (tperm p pv)] =
              map_sum id (tperm p) (initial_state ap None [''params'' \<mapsto> Tensor pv])"
            and isb: "\<forall>s. initial_state ap None [''params'' \<mapsto> Tensor pv] = Inr s \<longrightarrow> batch_of B s"
            using M by (simp_all add: initial_state_def)
          show ?thesis
          proof (cases "truthy (case kw3 ''iterate'' of None \<Rightarrow> Flag True | Some v \<Rightarrow> v)")
            case False
            with lhs rhs b3 show ?thesis by simp
          next
            case True
            show ?thesis
            proof (cases "initial_state ap None [''params'' \<mapsto> Tensor pv]")
              case (Inl e)
              with True lhs rhs is' show ?thesis by (simp add: bind_err_def)
            next
              case (Inr s0)
              with isb have "batch_of B s0" by blast
              with b3 have "batch_kwargs B (kw3(state_name ap \<mapsto> Tensor s0))"
                by (rule batch_kwargs_upd)
              with True Inr lhs rhs is' show ?thesis
                by (simp add: bind_err_def kperm_upd del: fun_upd_apply)
            qed
          qed
        qed
      qed
    qed
  qed
qed

lemma Emitter_cost_tperm:
  fixes r :: "'a::{comm_monoid_add,minus,power} tensor"
  assumes "batch_of B r" "batch_of B y" "set p \<subseteq> {..<B}"
  shows "\<exists>c. length c = B \<and> Emitter_cost r y = Inr (Vec c) \<and>
     Emitter_cost (tperm p r) (tperm p y) = Inr (Vec (select p c))"
proof -
  from assms obtain R Y where [simp]: "r = Mat R" "y = Mat Y" and l: "length R = B" "length Y = B"
    by (cases r; cases y) auto
  have e: "Emitter_cost (Mat a) (Mat b) = Inr (Vec (map2 row_error a b))" for a b :: "'a list list"
    by (simp add: Emitter_cost_def tsub_def row_error_def comp_def split_def)
  from l assms(3) have "select p (map2 row_error R Y) = map2 row_error (select p R) (select p Y)"
    by (simp add: select_map2)
  with l show ?thesis by (simp add: e)
qed

lemma batchwise_rf:
  assumes "batchwise B p t rf gi" "batch_of B s" "batch_of B x"
  shows "rf (tperm p s) (tperm p x) = map_sum id (tperm p) (rf s x)"
    and "\<forall>r. rf s x = Inr r \<longrightarrow> batch_of B r"
  using assms unfolding batchwise_def by blast+

lemma batchwise_gi:
  assumes "batchwise B p t rf gi" "batch_of B x"
  shows "gi (tperm p x) = map_option (tperm p) \<circ> gi x"
    and "\<forall>k y. gi x k = Some y \<longrightarrow> batch_of B y"
  using assms unfolding batchwise_def by blast+

lemma batchwise_cell:
  assumes "batchwise B p t rf gi" "batch_kwargs B kw"
  shows "transition_apply t (kperm p kw) = map_sum id (tperm p) (transition_apply t kw)"
    and "\<forall>s. transition_apply t kw = Inr s \<longrightarrow> batch_of B s"
  using assms unfolding batchwise_def by blast+

lemma step_kwargs_kperm:
  assumes bw: "batchwise B p t rf gi" and bx: "batch_of B x" and bs: "batch_of B s"
    and bp: "batch_of B params"
  shows "step_kwargs ap gi (tperm p params) (tperm p s) (tperm p x) =
       kperm p (step_kwargs ap gi params s x) \<and>
     batch_kwargs B (step_kwargs ap gi params s x)"
proof -
  note g = batchwise_gi(1)[OF bw bx] and gb = batchwise_gi(2)[OF bw bx]
  have "map_option Tensor \<circ> (map_option (tperm p) \<circ> gi x) = kperm p (map_option Tensor \<circ> gi x)"
    by (auto simp: kperm_def fun_eq_iff option.map_comp comp_def)
  then have a: "step_kwargs ap gi (tperm p params) (tperm p s) (tperm p x) =
       kperm p (step_kwargs ap gi params s x)"
    by (simp add: step_kwargs_def g kperm_upd del: fun_upd_apply)
  from gb have "batch_kwargs B (map_option Tensor \<circ> gi x)"
    by (auto simp: batch_kwargs_def)
  then have b: "batch_kwargs B (step_kwargs ap gi params s x)"
    unfolding step_kwargs_def
    by (intro batch_kwargs_flag batch_kwargs_upd bs bp)
  from a b show ?thesis by blast
qed

lemma AddParameters_apply_kperm:
  assumes bw: "batchwise B p (transition ap) rf gi" and bk: "batch_kwargs B kw"
    and p: "set p \<subseteq> {..<B}" and act: "activations (init ap) = [Identity]"
  shows "AddParameters_apply ap (kperm p kw) = map_sum id (tperm p) (AddParameters_apply ap kw) \<and>
    (\<forall>s. AddParameters_apply ap kw = Inr s \<longrightarrow> batch_of B s)"
proof (cases "delegated_kwargs ap kw")
  case (Inl e)
  with delegated_kwargs_kperm[OF bk p act] show ?thesis
    by (simp add: AddParameters_apply_def bind_err_def)
next
  case (Inr kw')
  with delegated_kwargs_kperm[OF bk p act] have d: "delegated_kwargs ap (kperm p kw) = Inr (kperm p kw')"
    and b: "batch_kwargs B kw'" by auto
  from batchwise_cell[OF bw b] Inr d show ?thesis by (simp add: AddParameters_apply_def bind_err_def)
qed

lemma scoring_steps_tperm:
  fixes ap :: "('a::{comm_monoid_add,minus,power,times}, 'a tensor) AddParameters"
  assumes bw: "batchwise B p (transition ap) rf gi" and p: "set p \<subseteq> {..<B}"
    and act: "activations (init ap) = [Identity]" and bp: "batch_of B params"
  shows "batch_of B s \<Longrightarrow> batch_of B x \<Longrightarrow> \<forall>y \<in> set ys. batch_of B y \<Longrightarrow>
     scoring_steps ap rf gi (tperm p params) (tperm p s) (tperm p x) (map (tperm p) ys) =
       map_sum id (map (tperm p)) (scoring_steps ap rf gi params s x ys) \<and>
     (\<forall>cs. scoring_steps ap rf gi params s x ys = Inr cs \<longrightarrow>
        (\<forall>c \<in> set cs. \<exists>v. c = Vec v \<and> length v = B))"
proof (induction ys arbitrary: s x)
  case Nil
  then show ?case by simp
next
  case (Cons y ys)
  from Cons.prems have bs: "batch_of B s" and bx: "batch_of B x" and bty: "batch_of B y"
    and bys: "\<forall>y \<in> set ys. batch_of B y" by auto
  note r = batchwise_rf(1)[OF bw bs bx] and rb = batchwise_rf(2)[OF bw bs bx]
  show ?case
  proof (cases "rf s x")
    case (Inl e)
    with r show ?thesis by (simp add: bind_err_def)
  next
    case (Inr ro)
    with rb have bro: "batch_of B ro" by blast
    from Emitter_cost_tperm[OF bro bty p] obtain c where lc: "length c = B"
      and ec: "Emitter_cost ro y = Inr (Vec c)"
      and ec': "Emitter_cost (tperm p ro) (tperm p y) = Inr (Vec (select p c))" by blast
    from step_kwargs_kperm[OF bw bx bs bp] have
      sk: "step_kwargs ap gi (tperm p params) (tperm p s) (tperm p x) =
         kperm p (step_kwargs ap gi params s x)"
      and skb: "batch_kwargs B (step_kwargs ap gi params s x)" by blast+
    note A = AddParameters_apply_kperm[OF bw skb p act]
    show ?thesis
    proof (cases "AddParameters_apply ap (step_kwargs ap gi params s x)")
      case (Inl e)
      with A Inr r ec ec' sk show ?thesis by (simp add: bind_err_def)
    next
      case s': (Inr s')
      with A have as: "AddParameters_apply ap (kperm p (step_kwargs ap gi params s x)) = Inr (tperm p s')"
        and bs': "batch_of B s'" by auto
      from Cons.IH[OF bs' bty bys] have
        ih: "scoring_steps ap rf gi (tperm p params) (tperm p s') (tperm p y) (map (tperm p) ys) =
           map_sum id (map (tperm p)) (scoring_steps ap rf gi params s' y ys)"
        and ihb: "\<forall>cs. scoring_steps ap rf gi params s' y ys = Inr cs \<longrightarrow>
           (\<forall>c \<in> set cs. \<exists>v. c = Vec v \<and> length v = B)"
        by blast+
      show ?thesis
      proof (cases "scoring_steps ap rf gi params s' y ys")
        case (Inl e)
        with Inr r ec ec' sk s' as ih show ?thesis by (simp add: bind_err_def)
      next
        case cs: (Inr cs)
        with ihb have "\<forall>c \<in> set cs. \<exists>v. c = Vec v \<and> length v = B" by blast
        with Inr r ec ec' sk s' as ih cs lc show ?thesis by (simp add: bind_err_def)
      qed
    qed
  qed
qed

lemma perm_upt:
  assumes "mset p = mset [0..<B]"
  shows "length p = B" and "set p = {..<B}"
proof -
  from assms have "size (mset p) = size (mset [0..<B])" by simp
  then show "length p = B" by simp
  from assms have "set_mset (mset p) = set_mset (mset [0..<B])" by simp
  then show "set p = {..<B}" by (simp add: atLeast0LessThan)
qed

lemma sum_list_select:
  fixes v :: "'a::comm_monoid_add list"
  assumes "mset p = mset [0..<length v]"
  shows "sum_list (select p v) = sum_list v"
proof -
  have "mset (select p v) = image_mset (nth v) (mset p)" by (simp add: select_def)
  also have "\<dots> = image_mset (nth v) (mset [0..<length v])" by (simp only: assms)
  also have "\<dots> = mset (map (nth v) [0..<length v])" by simp
  also have "\<dots> = mset v" by (simp only: map_nth)
  finally have "sum_mset (mset (select p v)) = sum_mset (mset v)" by simp
  then show ?thesis by (simp only: sum_mset_sum_list)
qed

lemma costs_permuted:
  fixes cs :: "'a::comm_monoid_add tensor list"
  assumes perm: "mset p = mset [0..<B]"
    and vec: "\<forall>c \<in> set cs. \<exists>v. c = Vec v \<and> length v = B"
  shows "sequence_costs B (map (tperm p) cs) = select p (sequence_costs B cs)"
    and "total_cost (map (tperm p) cs) = total_cost cs"
proof -
  note lp = perm_upt(1)[OF perm] and sp = perm_upt(2)[OF perm]
  have at: "cost_at (tperm p c) j = cost_at c (p ! j)" if "c \<in> set cs" "j < B" for c j
  proof -
    from that vec obtain v where "c = Vec v" "length v = B" by blast
    with that lp show ?thesis by (simp add: select_def)
  qed
  have ts: "tsum (tperm p c) = tsum c" if "c \<in> set cs" for c
  proof -
    from that vec obtain v where v: "c = Vec v" "length v = B" by blast
    with perm have "mset p = mset [0..<length v]" by simp
    from sum_list_select[OF this] v show ?thesis by simp
  qed
  define g where "g = (\<lambda>i. \<Sum>c \<leftarrow> cs. cost_at c i)"
  have "sequence_costs B (map (tperm p) cs) = map (\<lambda>j. \<Sum>c \<leftarrow> cs. cost_at (tperm p c) j) [0..<B]"
    by (simp add: sequence_costs_def comp_def)
  also have "\<dots> = map (\<lambda>j. g (p ! j)) [0..<B]"
    unfolding g_def
    by (rule map_cong[OF refl], rule arg_cong[where f = sum_list], rule map_cong[OF refl])
      (simp add: at)
  also have "\<dots> = map g (map (nth p) [0..<length p])" by (simp add: lp)
  also have "\<dots> = map g p" by (simp only: map_nth)
  also have "\<dots> = select p (map g [0..<B])"
    unfolding select_def using sp by (intro map_cong[OF refl, symmetric]) auto
  finally show "sequence_costs B (map (tperm p) cs) = select p (sequence_costs B cs)"
    by (simp add: sequence_costs_def g_def)
  have m: "map (\<lambda>c. tsum (tperm p c)) cs = map tsum cs"
    by (rule map_cong[OF refl]) (simp add: ts)
  have "total_cost (map (tperm p) cs) = sum_list (map (\<lambda>c. tsum (tperm p c)) cs)"
    by (simp add: total_cost_def comp_def)
  also have "\<dots> = sum_list (map tsum cs)" by (simp only: m)
  finally show "total_cost (map (tperm p) cs) = total_cost cs"
    by (simp add: total_cost_def)
qed

lemma scoring_Inr_costs:
  fixes ap :: "('a::{comm_monoid_add,minus,power,times}, 'a tensor) AddParameters"
  assumes bw: "batchwise B p (transition ap) rf gi" and p: "set p \<subseteq> {..<B}"
    and act: "activations (init ap) = [Identity]" and bp: "batch_of B params"
    and bt: "\<forall>y \<in> set targets. batch_of B y"
  shows "scoring ap rf gi (tperm p params) (map (tperm p) targets) =
       map_sum id (map (tperm p)) (scoring ap rf gi params targets) \<and>
     (\<forall>cs. scoring ap rf gi params targets = Inr cs \<longrightarrow>
        (\<forall>c \<in> set cs. \<exists>v. c = Vec v \<and> length v = B))"
proof (cases targets)
  case Nil
  then show ?thesis by (simp add: scoring_def)
next
  case (Cons y ys)
  with bt have bty: "batch_of B y" by simp
  then obtain Y where Y: "y = Mat Y" "length Y = B" by (cases y) auto
  with p have z: "tmap (\<lambda>_. 0 :: 'a) (tperm p y) = tperm p (tmap (\<lambda>_. 0) y)"
    and bz: "batch_of B (tmap (\<lambda>_. 0 :: 'a) y)"
    by (simp_all add: select_map)
  note M = MLP_apply_tperm[OF act bp p]
  have is': "initial_state ap None [''params'' \<mapsto> Tensor (tperm p params)] =
      map_sum id (tperm p) (initial_state ap None [''params'' \<mapsto> Tensor params])"
    and isb: "\<forall>s. initial_state ap None [''params'' \<mapsto> Tensor params] = Inr s \<longrightarrow> batch_of B s"
    using M by (simp_all add: initial_state_def)
  show ?thesis
  proof (cases "initial_state ap None [''params'' \<mapsto> Tensor params]")
    case (Inl e)
    with is' Cons show ?thesis by (simp add: scoring_def bind_err_def)
  next
    case (Inr s0)
    with isb have bs: "batch_of B s0" by blast
    from bt Cons have bt': "\<forall>y \<in> set (y # ys). batch_of B y" by simp
    from scoring_steps_tperm[OF bw p act bp bs bz bt'] Inr is' Cons z
    show ?thesis by (simp add: scoring_def bind_err_def del: scoring_steps.simps)
  qed
qed

text \<open>
  C8. Let the sequences of a batch of \<open>B\<close> be reordered by a permutation \<open>p\<close>, the
  targets and the params together, and let the readout, the inputs and the wrapped
  transition be batchwise. Then scoring the reordered batch fails as scoring the batch
  does, or returns at every step the costs of the sequences reordered by \<open>p\<close>; the
  costs of the sequences summed over time are reordered by \<open>p\<close> too, and the total
  cost is the same. Addition of the costs is taken to be associative and commutative, as
  it is for exact numbers.
\<close>

theorem scoring_permutes_with_batch:
  fixes ap :: "('a::{comm_monoid_add,minus,power,times}, 'a tensor) AddParameters"
  assumes c: "construct t n pname fw iw = Inr ap"
    and perm: "mset p = mset [0..<B]"
    and bw: "batchwise B p t rf gi"
    and bp: "batch_of B params"
    and bt: "\<forall>y \<in> set targets. batch_of B y"
  shows "scoring ap rf gi (tperm p params) (map (tperm p) targets) =
       map_sum id (map (tperm p)) (scoring ap rf gi params targets) \<and>
     (\<forall>cs. scoring ap rf gi params targets = Inr cs \<longrightarrow>
        sequence_costs B (map (tperm p) cs) = select p (sequence_costs B cs) \<and>
        total_cost (map (tperm p) cs) = total_cost cs)"
proof -
  from construct_fields(1,9)[OF c] have t: "transition ap = t" and act: "activations (init ap) = [Identity]"
    by simp_all
  from perm_upt(2)[OF perm] have p: "set p \<subseteq> {..<B}" by simp
  from bw t have bw': "batchwise B p (transition ap) rf gi" by simp
  note S = scoring_Inr_costs[OF bw' p act bp bt]
  have "sequence_costs B (map (tperm p) cs) = select p (sequence_costs B cs) \<and>
        total_cost (map (tperm p) cs) = total_cost cs"
    if "scoring ap rf gi params targets = Inr cs" for cs
  proof -
    from S that have "\<forall>c \<in> set cs. \<exists>v. c = Vec v \<and> length v = B" by blast
    from costs_permuted[OF perm this] show ?thesis by blast
  qed
  with S show ?thesis by blast
qed

lemma adding_batchwise:
  assumes p: "set p \<subseteq> {..<B}"
  shows "batchwise B p adding_cell state_readout to_inputs"
proof -
  have cell: "transition_apply adding_cell (kperm p kw) =
        map_sum id (tperm p) (transition_apply adding_cell kw) \<and>
      (\<forall>s. transition_apply adding_cell kw = Inr s \<longrightarrow> batch_of B s)"
    if bk: "batch_kwargs B kw" for kw
  proof (cases "kw ''states''")
    case None
    then show ?thesis by (simp add: adding_cell_def kperm_def)
  next
    case (Some a)
    show ?thesis
    proof (cases a)
      case (Flag b)
      with Some show ?thesis by (simp add: adding_cell_def kperm_def)
    next
      case (Tensor s)
      with Some bk have bs: "batch_of B s" by (auto simp: batch_kwargs_def)
      show ?thesis
      proof (cases "kw ''inputs''")
        case None
        with Some Tensor show ?thesis by (simp add: adding_cell_def kperm_def)
      next
        case i: (Some b)
        show ?thesis
        proof (cases b)
          case (Flag c)
          with Some Tensor i show ?thesis by (simp add: adding_cell_def kperm_def)
        next
          case x: (Tensor x)
          with i bk have "batch_of B x" by (auto simp: batch_kwargs_def)
          from tadd_tperm[OF bs this p] Some Tensor i x show ?thesis
            by (simp add: adding_cell_def kperm_def)
        qed
      qed
    qed
  qed
  have gi: "to_inputs (tperm p x) = map_option (tperm p) \<circ> to_inputs x" for x
    by (simp add: to_inputs_def fun_eq_iff)
  have gb: "\<forall>k y. to_inputs x k = Some y \<longrightarrow> batch_of B y" if "batch_of B x" for x
    using that by (simp add: to_inputs_def)
  show ?thesis
    unfolding batchwise_def using cell gi gb by (simp add: state_readout_def)
qed

lemma adding_construct:
  "\<exists>ap. construct adding_cell 1 ''params'' adding_fork_params adding_init_params = Inr ap"
  by (simp add: construct_def AddParameters_init_def push_allocation_config_def bind_err_def
      adding_cell_def Let_def MLP_init_def set_item_def)

lemma adding_scoring:
  assumes c: "construct adding_cell 1 ''params'' adding_fork_params adding_init_params = Inr ap"
  shows "scoring ap state_readout to_inputs (Mat [[1], [3]]) [Mat [[1], [2]], Mat [[0], [5]]] =
     Inr [Vec [4, 25], Vec [16, 25]]"
proof -
  from construct_fields(5)[OF c] have sn: "state_name ap = ''states''"
    by (simp add: adding_cell_def)
  from construct_fields(4)[OF c] have ins: "input_names ap = [''inputs'']"
    by (simp add: adding_cell_def)
  from construct_fields(1)[OF c] have t: "transition ap = adding_cell" .
  note f = construct_fields(6-9)[OF c]
  have i: "initial_state ap None [''params'' \<mapsto> Tensor (Mat [[1], [3]])] = Inr (Mat [[3], [7]])"
    by (simp add: initial_state_def MLP_apply_def f adding_init_params_def bind_err_def
        Identity_def affine_def)
  have a: "AddParameters_apply ap (step_kwargs ap to_inputs (Mat [[1], [3]]) (Mat [[a], [b]]) (Mat [[x], [y]])) =
      Inr (Mat [[a + (x + 1)], [b + (y + 3)]])" for a b x y
    by (simp add: AddParameters_apply_def delegated_kwargs_def step_kwargs_def to_inputs_def sn ins t
        f Fork_apply_def adding_fork_params_def bind_err_def affine_def tadd_def adding_cell_def)
  have e: "Emitter_cost (Mat [[a], [b]]) (Mat [[x], [y]]) = Inr (Vec [(a - x)\<^sup>2, (b - y)\<^sup>2])"
    for a b x y :: int
    by (simp add: Emitter_cost_def tsub_def)
  show ?thesis
    by (simp add: scoring_def i bind_err_def state_readout_def e a)
qed

theorem scoring_permutes_with_batch_witness:
  "\<exists>ap. construct adding_cell 1 ''params'' adding_fork_params adding_init_params = Inr ap \<and>
     mset [1, 0] = mset [0..<2] \<and>
     batchwise 2 [1, 0] adding_cell state_readout to_inputs \<and>
     scoring ap state_readout to_inputs (Mat [[1], [3]]) [Mat [[1], [2]], Mat [[0], [5]]] =
       Inr [Vec [4, 25], Vec [16, 25]] \<and>
     scoring ap state_readout to_inputs (Mat [[3], [1]]) [Mat [[2], [1]], Mat [[5], [0]]] =
       Inr [Vec [25, 4], Vec [25, 16]] \<and>
     sequence_costs 2 [Vec [4, 25], Vec [16, 25 :: int]] = [20, 50] \<and>
     sequence_costs 2 [Vec [25, 4], Vec [25, 16 :: int]] = [50, 20] \<and>
     total_cost [Vec [4, 25], Vec [16, 25 :: int]] = 70 \<and>
     total_cost [Vec [25, 4], Vec [25, 16 :: int]] = 70"
proof -
  from adding_construct obtain ap where
    c: "construct adding_cell 1 ''params'' adding_fork_params adding_init_params = Inr ap" ..
  have perm: "mset [1, 0] = mset [0..<2]" by (simp add: upt_rec)
  have bw: "batchwise 2 [1, 0] adding_cell state_readout to_inputs"
    by (rule adding_batchwise) simp
  have bp: "batch_of 2 (Mat [[1], [3 :: int]])" by simp
  have bt: "\<forall>y \<in> set [Mat [[1], [2]], Mat [[0], [5 :: int]]]. batch_of 2 y" by simp
  note s = adding_scoring[OF c]
  from scoring_permutes_with_batch[OF c perm bw bp bt]
  have "scoring ap state_readout to_inputs (Mat [[3], [1]]) [Mat [[2], [1]], Mat [[5], [0]]] =
       Inr [Vec [25, 4], Vec [25, 16]] \<and>
     sequence_costs 2 [Vec [4, 25], Vec [16, 25 :: int]] = [20, 50] \<and>
     sequence_costs 2 [Vec [25, 4], Vec [25, 16 :: int]] = [50, 20] \<and>
     total_cost [Vec [4, 25], Vec [16, 25 :: int]] = 70 \<and>
     total_cost [Vec [25, 4], Vec [25, 16 :: int]] = 70"
    by (simp add: s select_def sequence_costs_def total_cost_def upt_rec)
  with c perm bw s show ?thesis by blast
qed

end
